theory Spec2Isabelle
  imports Main "HOL-Library.Log_Nat"
begin

section \<open>Python values used by the backend\<close>

subsection \<open>Exceptions\<close>

text \<open>
  An exception instance is kept as its class together with the text that \<open>str(e)\<close>
  yields. \<open>OverflowError\<close> is what the standard library raises from date arithmetic and
  from \<open>round\<close>; \<open>ApiException\<close> stands for whatever the Plaid client or one of its
  response objects raises. Every class here derives from \<open>Exception\<close>, which is what the
  three handlers catch.
\<close>

datatype exn = OverflowError string | ApiException string


definition bindE :: "'e + 'a \<Rightarrow> ('a \<Rightarrow> 'e + 'b) \<Rightarrow> 'e + 'b" where
  "bindE r f = (case r of Inl e \<Rightarrow> Inl e | Inr v \<Rightarrow> f v)"

subsection \<open>Binary64 floating point\<close>

text \<open>
  Plaid delivers \<open>amount\<close> as a Python \<open>float\<close>. A finite double is represented by its
  exact rational value; \<open>fl\<close> rounds a rational to the nearest double, ties to even, with
  53 significant bits above the subnormal grid \<open>2 powi (- 1074)\<close>. Both zeros are the one
  value \<open>Finite 0\<close>: the program never observes the sign of a zero.
\<close>

definition round_half_even :: "rat \<Rightarrow> int" where
  "round_half_even x =
     (let f = \<lfloor>x\<rfloor>; d = x - of_int f
      in if d < 1/2 then f else if 1/2 < d then f + 1 else if even f then f else f + 1)"

definition expo :: "rat \<Rightarrow> int" where
  "expo x = (if 1 \<le> \<bar>x\<bar> then bitlen \<lfloor>\<bar>x\<bar>\<rfloor> - 1 else - bitlen (\<lceil>1 / \<bar>x\<bar>\<rceil> - 1))"

definition ulp_exp :: "rat \<Rightarrow> int" where
  "ulp_exp x = max (expo x - 52) (- 1074)"

definition grid_round :: "int \<Rightarrow> rat \<Rightarrow> rat" where
  "grid_round p x = of_int (round_half_even (x / 2 powi p)) * 2 powi p"

definition fl :: "rat \<Rightarrow> rat" where
  "fl x = (if x = 0 then 0 else grid_round (ulp_exp x) x)"

datatype pyfloat = Finite rat | PInf | NInf | NaN

definition overflow_threshold :: rat where
  "overflow_threshold = 2 ^ 1024"

text \<open>
  Conversion of an exact value to a \<open>float\<close>: what a float literal, \<open>strtod\<close> and every
  arithmetic operation do with their exact result.
\<close>

definition to_double :: "rat \<Rightarrow> pyfloat" where
  "to_double q =
     (let r = fl q
      in if overflow_threshold \<le> r then PInf
         else if r \<le> - overflow_threshold then NInf
         else Finite r)"

fun fadd :: "pyfloat \<Rightarrow> pyfloat \<Rightarrow> pyfloat" where
  "fadd (Finite a) (Finite b) = to_double (a + b)"
| "fadd NaN _ = NaN"
| "fadd _ NaN = NaN"
| "fadd PInf NInf = NaN"
| "fadd NInf PInf = NaN"
| "fadd PInf _ = PInf"
| "fadd _ PInf = PInf"
| "fadd NInf _ = NInf"
| "fadd _ NInf = NInf"

text \<open>The comparisons \<open>x > 0\<close> and \<open>x <= 0\<close> against the integer zero, and \<open>x >= y\<close>.\<close>

fun fgt0 :: "pyfloat \<Rightarrow> bool" where
  "fgt0 (Finite a) = (0 < a)"
| "fgt0 PInf = True"
| "fgt0 NInf = False"
| "fgt0 NaN = False"

fun fle0 :: "pyfloat \<Rightarrow> bool" where
  "fle0 (Finite a) = (a \<le> 0)"
| "fle0 PInf = False"
| "fle0 NInf = True"
| "fle0 NaN = False"

fun fge :: "pyfloat \<Rightarrow> pyfloat \<Rightarrow> bool" where
  "fge (Finite a) (Finite b) = (b \<le> a)"
| "fge NaN _ = False"
| "fge _ NaN = False"
| "fge PInf _ = True"
| "fge _ NInf = True"
| "fge _ PInf = False"
| "fge NInf _ = False"

text \<open>
  The builtin \<open>sum\<close> up to CPython 3.11: starting from the integer \<open>0\<close>, the items are
  added from left to right, each addition rounding to a double. (The integer start value
  is exact as a double, and so is the empty sum.)
\<close>

definition py_sum :: "pyfloat list \<Rightarrow> pyfloat" where
  "py_sum xs = foldl fadd (Finite 0) xs"

text \<open>
  From CPython 3.12 on the builtin \<open>sum\<close> adds floats with Neumaier's compensated
  summation: beside the running total \<open>f_result\<close> it accumulates the rounding errors in
  \<open>c\<close>, and adds \<open>c\<close> to the total once, at the end, when \<open>c\<close> is finite and not zero.
  The first item is added to the integer start value before that loop begins.
\<close>

fun fneg :: "pyfloat \<Rightarrow> pyfloat" where
  "fneg (Finite a) = Finite (- a)"
| "fneg PInf = NInf"
| "fneg NInf = PInf"
| "fneg NaN = NaN"

definition fsub :: "pyfloat \<Rightarrow> pyfloat \<Rightarrow> pyfloat" where
  "fsub a b = fadd a (fneg b)"

fun fabs :: "pyfloat \<Rightarrow> pyfloat" where
  "fabs (Finite a) = Finite \<bar>a\<bar>"
| "fabs PInf = PInf"
| "fabs NInf = PInf"
| "fabs NaN = NaN"

fun is_finite :: "pyfloat \<Rightarrow> bool" where
  "is_finite (Finite a) = True"
| "is_finite PInf = False"
| "is_finite NInf = False"
| "is_finite NaN = False"

fun neumaier :: "pyfloat \<Rightarrow> pyfloat \<Rightarrow> pyfloat list \<Rightarrow> pyfloat" where
  "neumaier f_result c [] = (if c \<noteq> Finite 0 \<and> is_finite c then fadd f_result c else f_result)"
| "neumaier f_result c (x # items) =
     (let t = fadd f_result x;
          c' = (if fge (fabs f_result) (fabs x)
                then fadd c (fadd (fsub f_result t) x)
                else fadd c (fadd (fsub x t) f_result))
      in neumaier t c' items)"

definition py_sum_compensated :: "pyfloat list \<Rightarrow> pyfloat" where
  "py_sum_compensated xs =
     (case xs of
        [] \<Rightarrow> Finite 0
      | x # items \<Rightarrow> neumaier (fadd (Finite 0) x) (Finite 0) items)"

text \<open>
  The builtin \<open>round(x, ndigits)\<close> on a float: infinities and NaN round to themselves;
  a finite value is printed correctly rounded (ties to even) with \<open>ndigits\<close> decimals and
  the decimal string is read back as a double, which raises when that double overflows.
\<close>

definition py_round :: "pyfloat \<Rightarrow> nat \<Rightarrow> exn + pyfloat" where
  "py_round x ndigits =
     (case x of
        Finite q \<Rightarrow>
          if 323 < ndigits then Inr x
          else
            (let r = fl (of_int (round_half_even (q * 10 ^ ndigits)) / 10 ^ ndigits)
             in if overflow_threshold \<le> \<bar>r\<bar>
                then Inl (OverflowError ''rounded value too large to represent'')
                else Inr (Finite r))
      | _ \<Rightarrow> Inr x)"

subsection \<open>Calendar dates\<close>

text \<open>
  A \<open>datetime.date\<close> is its proleptic Gregorian ordinal (\<open>date.toordinal()\<close>), which
  ranges over \<open>1 .. MAXORDINAL\<close>; subtracting a \<open>timedelta\<close> of whole days raises
  \<open>OverflowError\<close> when the result leaves that range.
\<close>

type_synonym pydate = int

definition MAXORDINAL :: int where
  "MAXORDINAL = 3652059"

definition is_leap :: "int \<Rightarrow> bool" where
  "is_leap y \<longleftrightarrow> y mod 4 = 0 \<and> (y mod 100 \<noteq> 0 \<or> y mod 400 = 0)"

definition days_before_year :: "int \<Rightarrow> int" where
  "days_before_year year = (let y = year - 1 in y * 365 + y div 4 - y div 100 + y div 400)"

definition days_before_month :: "int \<Rightarrow> int \<Rightarrow> int" where
  "days_before_month year month =
     sum_list (take (nat (month - 1))
       [31, if is_leap year then 29 else 28, 31, 30, 31, 30, 31, 31, 30, 31, 30, 31])"

definition ymd2ord :: "int \<Rightarrow> int \<Rightarrow> int \<Rightarrow> pydate" where
  "ymd2ord year month day = days_before_year year + days_before_month year month + day"

definition date_sub_days :: "pydate \<Rightarrow> int \<Rightarrow> exn + pydate" where
  "date_sub_days d n =
     (let ord = d - n
      in if 0 < ord \<and> ord \<le> MAXORDINAL then Inr ord
         else Inl (OverflowError ''date value out of range''))"

section \<open>The endpoints\<close>

subsection \<open>Data exchanged with Plaid and with the caller\<close>

record transaction =
  amount :: pyfloat
  date :: pydate

record spending_response =
  daily :: pyfloat
  weekly :: pyfloat
  monthly :: pyfloat







subsection \<open>The shared exception handler\<close>


subsection \<open>Link token and token exchange\<close>





subsection \<open>Spending\<close>

text \<open>
  The three comprehensions of \<open>get_spending\<close>: the spending filter and the two date
  windows. The monthly total has no window of its own.
\<close>

definition spending_transactions :: "transaction list \<Rightarrow> transaction list" where
  "spending_transactions transactions = filter (\<lambda>t. fgt0 (amount t)) transactions"

definition daily_terms :: "pydate \<Rightarrow> transaction list \<Rightarrow> transaction list" where
  "daily_terms yesterday spending = filter (\<lambda>t. yesterday \<le> date t) spending"

definition weekly_terms :: "pydate \<Rightarrow> transaction list \<Rightarrow> transaction list" where
  "weekly_terms week_ago spending = filter (\<lambda>t. week_ago \<le> date t) spending"

text \<open>
  The aggregation proper (from the spending filter to the construction of the response),
  as a function of the transaction list and of the date \<open>today\<close> read from the clock.
\<close>

definition spending_summary :: "pydate \<Rightarrow> transaction list \<Rightarrow> exn + spending_response" where
  "spending_summary today transactions =
     (let spending = spending_transactions transactions
      in bindE (date_sub_days today 1) (\<lambda>yesterday.
         bindE (date_sub_days today 7) (\<lambda>week_ago.
           let daily_sum = py_sum (map amount (daily_terms yesterday spending));
               weekly_sum = py_sum (map amount (weekly_terms week_ago spending));
               monthly_sum = py_sum (map amount spending)
           in bindE (py_round daily_sum 2) (\<lambda>d.
              bindE (py_round weekly_sum 2) (\<lambda>w.
              bindE (py_round monthly_sum 2) (\<lambda>m.
                Inr \<lparr>daily = d, weekly = w, monthly = m\<rparr>))))))"

text \<open>The same aggregation on an interpreter whose \<open>sum\<close> is the compensated one.\<close>

definition spending_summary_compensated :: "pydate \<Rightarrow> transaction list \<Rightarrow> exn + spending_response" where
  "spending_summary_compensated today transactions =
     (let spending = spending_transactions transactions
      in bindE (date_sub_days today 1) (\<lambda>yesterday.
         bindE (date_sub_days today 7) (\<lambda>week_ago.
           let daily_sum = py_sum_compensated (map amount (daily_terms yesterday spending));
               weekly_sum = py_sum_compensated (map amount (weekly_terms week_ago spending));
               monthly_sum = py_sum_compensated (map amount spending)
           in bindE (py_round daily_sum 2) (\<lambda>d.
              bindE (py_round weekly_sum 2) (\<lambda>w.
              bindE (py_round monthly_sum 2) (\<lambda>m.
                Inr \<lparr>daily = d, weekly = w, monthly = m\<rparr>))))))"



section \<open>Auxiliary notions for the proofs\<close>

definition on_grid :: "int \<Rightarrow> rat \<Rightarrow> bool" where
  "on_grid p x \<longleftrightarrow> (\<exists>k::int. x = of_int k * 2 powi p)"

definition round2 :: "rat \<Rightarrow> rat" where
  "round2 q = fl (of_int (round_half_even (q * 100)) / 100)"

fun round2f :: "pyfloat \<Rightarrow> pyfloat" where
  "round2f (Finite q) = Finite (round2 q)"
| "round2f x = x"

text \<open>Accumulators of a sum of positive amounts: a non-negative double or \<open>+inf\<close>.\<close>

fun acc_ok :: "pyfloat \<Rightarrow> bool" where
  "acc_ok (Finite q) = (0 \<le> q \<and> fl q = q \<and> q < overflow_threshold)"
| "acc_ok PInf = True"
| "acc_ok NInf = False"
| "acc_ok NaN = False"

text \<open>
  What rounding to two decimal places means for a double: the output is the double nearest
  to a decimal \<open>n / 100\<close> that lies within half a cent of the unrounded sum; an infinite sum
  stays infinite.
\<close>

definition rounded_to_cents :: "pyfloat \<Rightarrow> pyfloat \<Rightarrow> bool" where
  "rounded_to_cents unrounded out =
     (case unrounded of
        Finite q \<Rightarrow> (\<exists>n::int. \<bar>of_int n / 100 - q\<bar> \<le> 1 / 200 \<and> out = Finite (fl (of_int n / 100)))
      | _ \<Rightarrow> out = unrounded)"

section \<open>Rounding to the nearest double\<close>

lemma round_half_even_of_int: "round_half_even (of_int n) = n"
  by (simp add: round_half_even_def)

lemma round_half_even_lower: "\<lfloor>x\<rfloor> \<le> round_half_even x"
  by (simp add: round_half_even_def Let_def)

lemma round_half_even_upper: "round_half_even x \<le> \<lfloor>x\<rfloor> + 1"
  by (simp add: round_half_even_def Let_def)

lemma round_half_even_ge_int: "of_int n \<le> x \<Longrightarrow> n \<le> round_half_even x"
proof -
  assume "of_int n \<le> x"
  then have "n \<le> \<lfloor>x\<rfloor>" by (simp add: le_floor_iff)
  with round_half_even_lower [of x] show ?thesis by linarith
qed

lemma round_half_even_le_int:
  assumes "x \<le> of_int n" shows "round_half_even x \<le> n"
proof (cases "x = of_int n")
  case True then show ?thesis by (simp add: round_half_even_of_int)
next
  case False
  with assms have "x < of_int n" by simp
  then have "\<lfloor>x\<rfloor> < n" by (simp add: floor_less_iff)
  with round_half_even_upper [of x] show ?thesis by linarith
qed

lemma round_half_even_mono:
  assumes "x \<le> y" shows "round_half_even x \<le> round_half_even y"
proof (cases "\<lfloor>x\<rfloor> = \<lfloor>y\<rfloor>")
  case True
  with assms show ?thesis by (auto simp add: round_half_even_def Let_def)
next
  case False
  with assms have "\<lfloor>x\<rfloor> < \<lfloor>y\<rfloor>" by (simp add: floor_mono order_neq_le_trans)
  with round_half_even_upper [of x] round_half_even_lower [of y] show ?thesis by linarith
qed

lemma round_half_even_near: "\<bar>of_int (round_half_even x) - x\<bar> \<le> 1/2"
proof -
  have "of_int \<lfloor>x\<rfloor> \<le> x" "x < of_int \<lfloor>x\<rfloor> + 1" by linarith+
  then show ?thesis by (auto simp add: round_half_even_def Let_def abs_le_iff)
qed

lemma expo_bounds:
  assumes "0 < x"
  shows "2 powi expo x \<le> x" and "x < 2 powi (expo x + 1)"
proof -
  show "2 powi expo x \<le> x"
  proof (cases "1 \<le> x")
    case True
    then have p: "0 < \<lfloor>x\<rfloor>" by (simp add: floor_less_iff)
    from bitlen_bounds [OF p] have "2 ^ nat (bitlen \<lfloor>x\<rfloor> - 1) \<le> \<lfloor>x\<rfloor>" by simp
    then have "(of_int (2 ^ nat (bitlen \<lfloor>x\<rfloor> - 1)) :: rat) \<le> of_int \<lfloor>x\<rfloor>"
      by (simp only: of_int_le_iff)
    also have "\<dots> \<le> x" by simp
    finally have "(2::rat) ^ nat (bitlen \<lfloor>x\<rfloor> - 1) \<le> x" by simp
    moreover have "0 \<le> bitlen \<lfloor>x\<rfloor> - 1" using p bitlen_eq_zero_iff [of "\<lfloor>x\<rfloor>"] bitlen_nonneg [of "\<lfloor>x\<rfloor>"] by linarith
    ultimately show ?thesis using True assms by (simp add: expo_def power_int_def)
  next
    case False
    with assms have x1: "x < 1" by simp
    define k where "k = \<lceil>1 / x\<rceil> - 1"
    have "1 < 1 / x" using assms x1 by simp
    then have kp: "0 < k" unfolding k_def by (simp add: less_ceiling_iff)
    from bitlen_bounds [OF kp] have "k < 2 ^ nat (bitlen k)" by simp
    then have "k + 1 \<le> 2 ^ nat (bitlen k)" by simp
    then have "(of_int (k + 1) :: rat) \<le> of_int (2 ^ nat (bitlen k))" by (simp only: of_int_le_iff)
    moreover have "1 / x \<le> of_int (k + 1)" unfolding k_def by simp
    ultimately have "1 / x \<le> 2 ^ nat (bitlen k)" by simp
    then have "1 / 2 ^ nat (bitlen k) \<le> x" using assms
      by (simp add: field_simps)
    moreover have "1 \<le> bitlen k" using kp bitlen_eq_zero_iff [of k] bitlen_nonneg [of k] by linarith
    ultimately show ?thesis using False assms
      by (simp add: expo_def k_def [symmetric] power_int_def field_simps)
  qed
  show "x < 2 powi (expo x + 1)"
  proof (cases "1 \<le> x")
    case True
    then have p: "0 < \<lfloor>x\<rfloor>" by (simp add: floor_less_iff)
    from bitlen_bounds [OF p] have "\<lfloor>x\<rfloor> < 2 ^ nat (bitlen \<lfloor>x\<rfloor>)" by simp
    then have "\<lfloor>x\<rfloor> + 1 \<le> 2 ^ nat (bitlen \<lfloor>x\<rfloor>)" by simp
    then have "(of_int (\<lfloor>x\<rfloor> + 1) :: rat) \<le> of_int (2 ^ nat (bitlen \<lfloor>x\<rfloor>))" by (simp only: of_int_le_iff)
    moreover have "x < of_int (\<lfloor>x\<rfloor> + 1)" by linarith
    ultimately have "x < 2 ^ nat (bitlen \<lfloor>x\<rfloor>)" by simp
    moreover have "0 \<le> bitlen \<lfloor>x\<rfloor>" by (rule bitlen_nonneg)
    ultimately show ?thesis using True assms by (simp add: expo_def power_int_def)
  next
    case False
    with assms have x1: "x < 1" by simp
    define k where "k = \<lceil>1 / x\<rceil> - 1"
    have "1 < 1 / x" using assms x1 by simp
    then have kp: "0 < k" unfolding k_def by (simp add: less_ceiling_iff)
    from bitlen_bounds [OF kp] have "2 ^ nat (bitlen k - 1) \<le> k" by simp
    then have "(of_int (2 ^ nat (bitlen k - 1)) :: rat) \<le> of_int k" by (simp only: of_int_le_iff)
    then have "(2::rat) ^ nat (bitlen k - 1) \<le> of_int k" by simp
    moreover have "(of_int k :: rat) < 1 / x" unfolding k_def using ceiling_correct [of "1 / x"] by simp
    ultimately have "2 ^ nat (bitlen k - 1) < 1 / x" by (rule order_le_less_trans)
    then have "x < 1 / 2 ^ nat (bitlen k - 1)" using assms
      by (simp add: field_simps)
    moreover have "1 \<le> bitlen k" using kp bitlen_eq_zero_iff [of k] bitlen_nonneg [of k] by linarith
    ultimately show ?thesis using False assms
      by (simp add: expo_def k_def [symmetric] power_int_def field_simps)
  qed
qed


lemma powi2_pos: "(0::rat) < 2 powi n"
  by simp

lemma powi2_mono: "m \<le> n \<Longrightarrow> (2::rat) powi m \<le> 2 powi n"
  by (rule power_int_increasing) simp_all

lemma powi2_less_imp: "(2::rat) powi m < 2 powi n \<Longrightarrow> m < n"
  using powi2_mono [of n m] by (cases "m < n") simp_all

lemma expo_unique:
  assumes "2 powi e \<le> x" "x < 2 powi (e + 1)"
  shows "expo x = e"
proof -
  have xp: "0 < x" using assms(1) powi2_pos [of e] by linarith
  from expo_bounds [OF xp] assms
  have a: "(2::rat) powi e < 2 powi (expo x + 1)" and b: "(2::rat) powi expo x < 2 powi (e + 1)"
    by linarith+
  from a have "e < expo x + 1" by (rule powi2_less_imp)
  moreover from b have "expo x < e + 1" by (rule powi2_less_imp)
  ultimately show ?thesis by simp
qed

lemma expo_mono:
  assumes "0 < x" "x \<le> y"
  shows "expo x \<le> expo y"
proof -
  have yp: "0 < y" using assms by simp
  from expo_bounds(1) [OF assms(1)] expo_bounds(2) [OF yp] assms(2)
  have "(2::rat) powi expo x < 2 powi (expo y + 1)" by linarith
  then have "expo x < expo y + 1" by (rule powi2_less_imp)
  then show ?thesis by simp
qed

lemma expo_le:
  assumes "0 < x" "x < 2 powi n"
  shows "expo x < n"
proof -
  from expo_bounds(1) [OF assms(1)] assms(2) have "(2::rat) powi expo x < 2 powi n" by linarith
  then show ?thesis by (rule powi2_less_imp)
qed

lemma expo_ge:
  assumes "2 powi n \<le> x"
  shows "n \<le> expo x"
proof -
  have xp: "0 < x" using assms powi2_pos [of n] by linarith
  from expo_bounds(2) [OF xp] assms have "(2::rat) powi n < 2 powi (expo x + 1)" by linarith
  then have "n < expo x + 1" by (rule powi2_less_imp)
  then show ?thesis by simp
qed

lemma fl_grid: "fl x = (if x = 0 then 0 else grid_round (ulp_exp x) x)"
  by (simp add: fl_def)

lemma grid_round_mono:
  assumes "x \<le> y" shows "grid_round p x \<le> grid_round p y"
proof -
  from assms have "x / 2 powi p \<le> y / 2 powi p" by (simp add: divide_right_mono)
  then have "round_half_even (x / 2 powi p) \<le> round_half_even (y / 2 powi p)" by (rule round_half_even_mono)
  then have "(of_int (round_half_even (x / 2 powi p)) :: rat) \<le> of_int (round_half_even (y / 2 powi p))" by simp
  then show ?thesis unfolding grid_round_def by (rule mult_right_mono) simp
qed

lemma grid_round_fix: "on_grid p x \<Longrightarrow> grid_round p x = x"
  by (auto simp add: on_grid_def grid_round_def round_half_even_of_int)

lemma grid_round_on_grid: "on_grid p (grid_round p x)"
  by (auto simp add: on_grid_def grid_round_def)

lemma grid_round_le: "on_grid p b \<Longrightarrow> x \<le> b \<Longrightarrow> grid_round p x \<le> b"
  using grid_round_mono [of x b p] by (simp add: grid_round_fix)

lemma grid_round_ge: "on_grid p b \<Longrightarrow> b \<le> x \<Longrightarrow> b \<le> grid_round p x"
  using grid_round_mono [of b x p] by (simp add: grid_round_fix)

lemma on_grid_powi:
  assumes "p \<le> e" shows "on_grid p (2 powi e)"
proof -
  have "(2::rat) powi e = 2 powi (e - p) * 2 powi p"
    by (simp add: power_int_add [symmetric])
  also have "(2::rat) powi (e - p) = of_int (2 ^ nat (e - p))"
    using assms by (simp add: power_int_def)
  finally show ?thesis unfolding on_grid_def by blast
qed

lemma on_grid_coarser:
  assumes "on_grid q x" "p \<le> q" shows "on_grid p x"
proof -
  from assms(1) obtain k :: int where x: "x = of_int k * 2 powi q" by (auto simp add: on_grid_def)
  from on_grid_powi [OF assms(2)] obtain j :: int where "(2::rat) powi q = of_int j * 2 powi p"
    by (auto simp add: on_grid_def)
  with x have "x = of_int (k * j) * 2 powi p" by simp
  then show ?thesis unfolding on_grid_def by blast
qed

lemma on_grid_0: "on_grid p 0"
  unfolding on_grid_def by (rule exI [of _ 0]) simp

lemma on_grid_int:
  assumes "on_grid p x" "0 \<le> p" shows "x \<in> \<int>"
proof -
  from assms(1) obtain k :: int where x: "x = of_int k * 2 powi p" by (auto simp add: on_grid_def)
  have "(2::rat) powi p = of_int (2 ^ nat p)" using assms(2) by (simp add: power_int_def)
  with x have "x = of_int (k * 2 ^ nat p)" by simp
  then show ?thesis by (metis Ints_of_int)
qed

lemma ulp_exp_le_expo: "0 < x \<Longrightarrow> - 1074 \<le> expo x \<Longrightarrow> ulp_exp x \<le> expo x"
  by (simp add: ulp_exp_def)

lemma ulp_exp_mono: "0 < x \<Longrightarrow> x \<le> y \<Longrightarrow> ulp_exp x \<le> ulp_exp y"
  using expo_mono [of x y] by (simp add: ulp_exp_def)

lemma fl_nonneg: "0 \<le> x \<Longrightarrow> 0 \<le> fl x"
  using grid_round_ge [OF on_grid_0, of x "ulp_exp x"] by (simp add: fl_grid)

lemma fl_mono_pos:
  assumes "0 < x" "x \<le> y"
  shows "fl x \<le> fl y"
proof -
  have yp: "0 < y" using assms by simp
  have le: "ulp_exp x \<le> ulp_exp y" using assms by (rule ulp_exp_mono)
  show ?thesis
  proof (cases "ulp_exp x = ulp_exp y")
    case True
    with assms yp show ?thesis by (simp add: fl_grid grid_round_mono)
  next
    case False
    with le have lt: "ulp_exp x < ulp_exp y" by simp
    then have ey: "ulp_exp y = expo y - 52" and ex: "expo x < expo y"
      by (simp_all add: ulp_exp_def max_def split: if_splits)
    let ?b = "(2::rat) powi expo y"
    have "x < 2 powi (expo x + 1)" using assms(1) by (rule expo_bounds)
    also have "\<dots> \<le> ?b" using ex by (intro powi2_mono) simp
    finally have xb: "x \<le> ?b" by simp
    have by': "?b \<le> y" using yp by (rule expo_bounds)
    have "on_grid (ulp_exp y) ?b" by (rule on_grid_powi) (simp add: ey)
    then have 1: "?b \<le> fl y" using by' yp by (simp add: fl_grid grid_round_ge)
    have "on_grid (ulp_exp x) ?b" by (rule on_grid_powi) (use lt ey in simp)
    then have 2: "fl x \<le> ?b" using xb assms(1) by (simp add: fl_grid grid_round_le)
    from 1 2 show ?thesis by simp
  qed
qed

lemma fl_mono:
  assumes "0 \<le> x" "x \<le> y"
  shows "fl x \<le> fl y"
proof (cases "x = 0")
  case True
  then show ?thesis using assms fl_nonneg [of y] by (simp add: fl_def)
next
  case False
  with assms show ?thesis by (intro fl_mono_pos) simp_all
qed

text \<open>A value on its own grid is a fixed point of rounding.\<close>

lemma fl_fix: "on_grid (ulp_exp x) x \<Longrightarrow> fl x = x"
  by (simp add: fl_grid grid_round_fix)

lemma fl_on_own_grid:
  assumes "0 \<le> x"
  shows "on_grid (ulp_exp (fl x)) (fl x)"
proof (cases "x = 0")
  case True
  then show ?thesis by (simp add: fl_def on_grid_0)
next
  case False
  with assms have xp: "0 < x" by simp
  let ?e = "expo x" and ?p = "ulp_exp x" and ?r = "fl x"
  have r: "?r = grid_round ?p x" using False by (simp add: fl_grid)
  have rg: "on_grid ?p ?r" unfolding r by (rule grid_round_on_grid)
  have lo: "2 powi ?e \<le> x" and hi: "x < 2 powi (?e + 1)" using xp by (rule expo_bounds)+
  show ?thesis
  proof (cases "- 1022 \<le> ?e")
    case True
    then have p: "?p = ?e - 52" by (simp add: ulp_exp_def)
    have "on_grid ?p (2 powi ?e)" by (rule on_grid_powi) (simp add: p)
    then have rlo: "2 powi ?e \<le> ?r" unfolding r using lo by (rule grid_round_ge)
    have "on_grid ?p (2 powi (?e + 1))" by (rule on_grid_powi) (simp add: p)
    then have rhi: "?r \<le> 2 powi (?e + 1)" unfolding r using hi by (intro grid_round_le) simp_all
    show ?thesis
    proof (cases "?r = 2 powi (?e + 1)")
      case True
      have "expo ?r = ?e + 1" unfolding True by (rule expo_unique) (simp_all add: powi2_mono power_int_strict_increasing)
      then have "ulp_exp ?r \<le> ?e + 1" using \<open>- 1022 \<le> ?e\<close> by (simp add: ulp_exp_def)
      then have "on_grid (ulp_exp ?r) (2 powi (?e + 1))" by (rule on_grid_powi)
      then show ?thesis using True by simp
    next
      case False
      with rhi have "?r < 2 powi (?e + 1)" by simp
      with rlo have "expo ?r = ?e" by (rule expo_unique)
      then have "ulp_exp ?r = ?p" by (simp add: ulp_exp_def)
      with rg show ?thesis by simp
    qed
  next
    case False
    then have p: "?p = - 1074" by (simp add: ulp_exp_def)
    have "x < 2 powi (?e + 1)" by (rule hi)
    also have "\<dots> \<le> 2 powi (- 1022)" using False by (intro powi2_mono) simp
    finally have xb: "x \<le> 2 powi (- 1022)" by simp
    have "on_grid ?p (2 powi (- 1022))" by (rule on_grid_powi) (simp add: p)
    then have rb: "?r \<le> 2 powi (- 1022)" unfolding r using xb by (rule grid_round_le)
    show ?thesis
    proof (cases "?r = 0")
      case True
      then show ?thesis by (simp add: on_grid_0)
    next
      case False
      with fl_nonneg [OF assms] have rp: "0 < ?r" by simp
      have "expo ?r \<le> - 1022"
      proof (cases "?r = 2 powi (- 1022)")
        case True
        have "expo ?r = - 1022" unfolding True
          by (rule expo_unique) (simp_all add: power_int_strict_increasing)
        then show ?thesis by simp
      next
        case False
        with rb have "?r < 2 powi (- 1022)" by simp
        with rp have "expo ?r < - 1022" by (rule expo_le)
        then show ?thesis by simp
      qed
      then have "ulp_exp ?r = - 1074" by (simp add: ulp_exp_def)
      with rg p show ?thesis by simp
    qed
  qed
qed

lemma fl_idem: "0 \<le> x \<Longrightarrow> fl (fl x) = fl x"
  by (rule fl_fix) (rule fl_on_own_grid)

lemma fl_zero: "fl 0 = 0"
  by (simp add: fl_def)

lemma fl_powi:
  assumes "- 1074 \<le> e" shows "fl (2 powi e) = 2 powi e"
proof -
  have "expo (2 powi e) = e"
    by (rule expo_unique) (simp_all add: power_int_strict_increasing)
  then have "ulp_exp (2 powi e) \<le> e" using assms by (simp add: ulp_exp_def)
  then have "on_grid (ulp_exp (2 powi e)) (2 powi e)" by (rule on_grid_powi)
  then show ?thesis by (rule fl_fix)
qed

lemma fl_le_powi:
  assumes "0 \<le> x" "x \<le> 2 powi e" "- 1074 \<le> e"
  shows "fl x \<le> 2 powi e"
  using fl_mono [OF assms(1,2)] fl_powi [OF assms(3)] by simp

text \<open>A non-negative double is an integer or lies below \<open>2 ^ 52\<close>.\<close>

lemma double_int_or_small:
  assumes "0 \<le> x" "fl x = x"
  shows "x \<in> \<int> \<or> x < 2 ^ 52"
proof (cases "x = 0")
  case True
  then show ?thesis by simp
next
  case False
  with assms have xp: "0 < x" by simp
  show ?thesis
  proof (cases "52 \<le> expo x")
    case True
    then have "0 \<le> ulp_exp x" by (simp add: ulp_exp_def)
    moreover have "on_grid (ulp_exp x) x"
      using grid_round_on_grid [of "ulp_exp x" x] assms(2) False by (simp add: fl_grid)
    ultimately show ?thesis by (simp add: on_grid_int)
  next
    case False
    have "x < 2 powi (expo x + 1)" using xp by (rule expo_bounds)
    also have "\<dots> \<le> 2 powi 52" using False by (intro powi2_mono) simp
    finally show ?thesis by simp
  qed
qed

lemma round2_nonneg:
  assumes "0 \<le> q" shows "0 \<le> round2 q"
proof -
  have "0 \<le> round_half_even (q * 100)" using assms by (intro round_half_even_ge_int) simp
  then show ?thesis unfolding round2_def by (intro fl_nonneg) simp
qed

lemma round2_mono:
  assumes "0 \<le> p" "p \<le> q" shows "round2 p \<le> round2 q"
proof -
  have 0: "0 \<le> round_half_even (p * 100)" using assms(1) by (intro round_half_even_ge_int) simp
  have "round_half_even (p * 100) \<le> round_half_even (q * 100)"
    using assms(2) by (intro round_half_even_mono) simp
  then have "(of_int (round_half_even (p * 100)) :: rat) / 100 \<le> of_int (round_half_even (q * 100)) / 100"
    by (simp add: divide_right_mono)
  moreover have "(0::rat) \<le> of_int (round_half_even (p * 100)) / 100" using 0 by simp
  ultimately show ?thesis unfolding round2_def by (intro fl_mono)
qed

lemma round2_bounded:
  assumes "0 \<le> q" "fl q = q" "q < overflow_threshold"
  shows "round2 q < overflow_threshold"
proof -
  from double_int_or_small [OF assms(1,2)] show ?thesis
  proof
    assume "q \<in> \<int>"
    then obtain k :: int where k: "q = of_int k" by (auto elim: Ints_cases)
    have "q * 100 = of_int (k * 100)" by (simp add: k)
    then have "round_half_even (q * 100) = k * 100" by (simp only: round_half_even_of_int)
    then have "round2 q = fl q" by (simp add: round2_def k)
    with assms show ?thesis by simp
  next
    assume small: "q < 2 ^ 52"
    have "\<bar>of_int (round_half_even (q * 100)) - q * 100\<bar> \<le> 1 / 2" by (rule round_half_even_near)
    then have "of_int (round_half_even (q * 100)) - q * 100 \<le> 1 / 2" by (simp only: abs_le_iff)
    then have "of_int (round_half_even (q * 100)) \<le> (q + 1) * 100" by (simp add: algebra_simps)
    then have "of_int (round_half_even (q * 100)) / 100 \<le> q + 1" by (simp add: divide_le_eq)
    also have "\<dots> \<le> 2 powi 53" using small by simp
    finally have le: "of_int (round_half_even (q * 100)) / 100 \<le> (2::rat) powi 53" .
    have "0 \<le> round_half_even (q * 100)" using assms(1) by (intro round_half_even_ge_int) simp
    then have "(0::rat) \<le> of_int (round_half_even (q * 100)) / 100" by simp
    from fl_le_powi [OF this le] have "round2 q \<le> 2 powi 53" by (simp add: round2_def)
    also have "(2::rat) powi 53 < overflow_threshold" by (simp add: overflow_threshold_def)
    finally show ?thesis .
  qed
qed

lemma overflow_threshold_pos: "0 < overflow_threshold"
  by (simp add: overflow_threshold_def)

lemma acc_ok_zero: "acc_ok (Finite 0)"
  by (simp add: fl_zero overflow_threshold_pos)

lemma to_double_acc:
  assumes "0 \<le> q" shows "acc_ok (to_double q)"
proof -
  have "0 \<le> fl q" using assms by (rule fl_nonneg)
  moreover have "fl (fl q) = fl q" using assms by (rule fl_idem)
  ultimately show ?thesis using overflow_threshold_pos by (simp add: to_double_def Let_def)
qed

lemma to_double_mono:
  assumes "0 \<le> p" "p \<le> q" shows "fge (to_double q) (to_double p)"
proof -
  have "fl p \<le> fl q" using assms by (rule fl_mono)
  moreover have "0 \<le> fl p" using assms(1) by (rule fl_nonneg)
  ultimately show ?thesis using overflow_threshold_pos by (simp add: to_double_def Let_def)
qed

lemma to_double_ge:
  assumes "0 \<le> a" "fl a = a" "a \<le> q" "a < overflow_threshold" shows "fge (to_double q) (Finite a)"
proof -
  have "fl a \<le> fl q" using assms(1,3) by (rule fl_mono)
  with assms show ?thesis using overflow_threshold_pos by (simp add: to_double_def Let_def)
qed

lemma fge_PInf: "acc_ok a \<Longrightarrow> fge PInf a"
  by (cases a) simp_all

lemma fge_refl: "acc_ok a \<Longrightarrow> fge a a"
  by (cases a) simp_all

lemma fge_trans: "fge c b \<Longrightarrow> fge b a \<Longrightarrow> fge c a"
  by (cases a; cases b; cases c) simp_all

lemma fadd_acc: "acc_ok a \<Longrightarrow> fgt0 x \<Longrightarrow> acc_ok (fadd a x)"
  by (cases a; cases x) (simp_all add: to_double_acc)

lemma fadd_mono: "acc_ok a \<Longrightarrow> acc_ok b \<Longrightarrow> fge b a \<Longrightarrow> fgt0 x \<Longrightarrow> fge (fadd b x) (fadd a x)"
  by (cases a; cases b; cases x) (simp_all add: to_double_mono to_double_acc fge_PInf)

lemma fadd_grow: "acc_ok a \<Longrightarrow> acc_ok b \<Longrightarrow> fge b a \<Longrightarrow> fgt0 x \<Longrightarrow> fge (fadd b x) a"
  by (cases a; cases b; cases x) (simp_all add: to_double_ge to_double_acc fge_PInf)

lemma foldl_filter_le:
  assumes "\<forall>t\<in>set ts. fgt0 (amount t)" "acc_ok a" "acc_ok b" "fge b a"
  shows "fge (foldl fadd b (map amount ts)) (foldl fadd a (map amount (filter P ts)))
       \<and> acc_ok (foldl fadd b (map amount ts))
       \<and> acc_ok (foldl fadd a (map amount (filter P ts)))"
  using assms
proof (induction ts arbitrary: a b)
  case Nil
  then show ?case by simp
next
  case (Cons t ts)
  then have pos: "fgt0 (amount t)" and rest: "\<forall>t\<in>set ts. fgt0 (amount t)" by simp_all
  have b': "acc_ok (fadd b (amount t))" using Cons.prems(3) pos by (rule fadd_acc)
  show ?case
  proof (cases "P t")
    case True
    have a': "acc_ok (fadd a (amount t))" using Cons.prems(2) pos by (rule fadd_acc)
    have "fge (fadd b (amount t)) (fadd a (amount t))"
      using Cons.prems(2,3,4) pos by (rule fadd_mono)
    from Cons.IH [OF rest a' b' this] True show ?thesis by simp
  next
    case False
    have "fge (fadd b (amount t)) a" using Cons.prems(2,3,4) pos by (rule fadd_grow)
    from Cons.IH [OF rest Cons.prems(2) b' this] False show ?thesis by simp
  qed
qed

lemma py_sum_filter_le:
  assumes "\<forall>t\<in>set ts. fgt0 (amount t)"
  shows "fge (py_sum (map amount ts)) (py_sum (map amount (filter P ts)))"
    and "acc_ok (py_sum (map amount ts))"
  using foldl_filter_le [OF assms acc_ok_zero acc_ok_zero fge_refl [OF acc_ok_zero], of P]
  by (simp_all add: py_sum_def)

lemma py_round2_finite:
  assumes "0 \<le> q" "fl q = q" "q < overflow_threshold"
  shows "py_round (Finite q) 2 = Inr (Finite (round2 q))"
  using round2_bounded [OF assms] round2_nonneg [OF assms(1)]
  by (simp add: py_round_def round2_def Let_def)

lemma py_round2_inf: "py_round PInf 2 = Inr PInf"
  by (simp add: py_round_def)

lemma py_round2_acc: "acc_ok a \<Longrightarrow> py_round a 2 = Inr (round2f a)"
  by (cases a) (simp_all add: py_round2_finite py_round2_inf)

lemma round2f_mono: "acc_ok a \<Longrightarrow> acc_ok b \<Longrightarrow> fge b a \<Longrightarrow> fge (round2f b) (round2f a)"
  by (cases a; cases b) (simp_all add: round2_mono)

section \<open>Evaluating the rounding on given values\<close>

lemma round_half_even_nearest:
  assumes "\<bar>x - of_int n\<bar> < 1 / 2" shows "round_half_even x = n"
proof -
  from assms have lo: "of_int n - 1 / 2 < x" and hi: "x < of_int n + 1 / 2" by linarith+
  show ?thesis
  proof (cases "of_int n \<le> x")
    case True
    then have "\<lfloor>x\<rfloor> = n" using hi by (intro floor_unique) simp_all
    then show ?thesis using hi by (simp add: round_half_even_def Let_def)
  next
    case False
    then have "\<lfloor>x\<rfloor> = n - 1" using lo by (intro floor_unique) simp_all
    then show ?thesis using lo by (simp add: round_half_even_def Let_def)
  qed
qed

lemma round_half_even_tie:
  assumes "x = of_int n + 1 / 2" shows "round_half_even x = (if even n then n else n + 1)"
proof -
  have "\<lfloor>x\<rfloor> = n" unfolding assms by (intro floor_unique) simp_all
  then show ?thesis by (simp add: round_half_even_def Let_def assms)
qed

lemma expo_abs: "expo \<bar>x\<bar> = expo x"
  by (simp add: expo_def)

lemma fl_eval:
  assumes "2 powi e \<le> \<bar>x\<bar>" "\<bar>x\<bar> < 2 powi (e + 1)" "- 1022 \<le> e"
    and "round_half_even (x / 2 powi (e - 52)) = n"
  shows "fl x = of_int n * 2 powi (e - 52)"
proof -
  have "expo \<bar>x\<bar> = e" using assms(1,2) by (rule expo_unique)
  then have "ulp_exp x = e - 52" using assms(3) by (simp add: ulp_exp_def expo_abs)
  moreover have "x \<noteq> 0"
  proof
    assume "x = 0"
    with assms(1) have "(2::rat) powi e \<le> 0" by simp
    with powi2_pos [of e] show False by linarith
  qed
  ultimately show ?thesis using assms(4) by (simp add: fl_def grid_round_def)
qed

lemma below_overflow_threshold:
  assumes "\<bar>r\<bar> \<le> 2 ^ 64" shows "\<bar>r\<bar> < overflow_threshold"
proof -
  have "(2::rat) ^ 64 < overflow_threshold"
    unfolding overflow_threshold_def by (rule power_strict_increasing) simp_all
  with assms show ?thesis by linarith
qed

lemma to_double_eval:
  assumes "fl q = r" "\<bar>r\<bar> \<le> 2 ^ 64" shows "to_double q = Finite r"
  using assms(1) below_overflow_threshold [OF assms(2)]
  by (auto simp add: to_double_def Let_def abs_less_iff)

lemma py_round2_eval:
  assumes "round_half_even (q * 100) = n" "fl (of_int n / 100) = r" "\<bar>r\<bar> \<le> 2 ^ 64"
  shows "py_round (Finite q) 2 = Inr (Finite r)"
  using assms(1,2) below_overflow_threshold [OF assms(3)] by (simp add: py_round_def Let_def)

lemma to_double_zero: "to_double 0 = Finite 0"
  using overflow_threshold_pos by (simp add: to_double_def fl_def Let_def)

lemma fsub_Finite: "fsub (Finite a) (Finite b) = to_double (a - b)"
  by (simp add: fsub_def)

section \<open>The aggregation on dates where both windows exist\<close>

lemma date_windows:
  assumes "7 < today" "today \<le> MAXORDINAL"
  shows "date_sub_days today 1 = Inr (today - 1)" and "date_sub_days today 7 = Inr (today - 7)"
  using assms by (simp_all add: date_sub_days_def Let_def)

lemma spending_positive: "\<forall>t\<in>set (spending_transactions ts). fgt0 (amount t)"
  by (simp add: spending_transactions_def)

lemma daily_positive: "\<forall>t\<in>set (daily_terms y (spending_transactions ts)). fgt0 (amount t)"
  by (simp add: spending_transactions_def daily_terms_def)

lemma weekly_positive: "\<forall>t\<in>set (weekly_terms w (spending_transactions ts)). fgt0 (amount t)"
  by (simp add: spending_transactions_def weekly_terms_def)

lemma daily_within_weekly:
  "daily_terms (today - 1) sp = filter (\<lambda>t. today - 1 \<le> date t) (weekly_terms (today - 7) sp)"
  unfolding daily_terms_def weekly_terms_def filter_filter
  by (rule filter_cong) auto

lemma spending_summary_eq:
  assumes "7 < today" "today \<le> MAXORDINAL"
  shows "spending_summary today ts =
           Inr \<lparr>daily = round2f (py_sum (map amount (daily_terms (today - 1) (spending_transactions ts)))),
                weekly = round2f (py_sum (map amount (weekly_terms (today - 7) (spending_transactions ts)))),
                monthly = round2f (py_sum (map amount (spending_transactions ts)))\<rparr>"
proof -
  have d: "py_round (py_sum (map amount (daily_terms (today - 1) (spending_transactions ts)))) 2
             = Inr (round2f (py_sum (map amount (daily_terms (today - 1) (spending_transactions ts)))))"
    by (intro py_round2_acc py_sum_filter_le(2) daily_positive)
  have w: "py_round (py_sum (map amount (weekly_terms (today - 7) (spending_transactions ts)))) 2
             = Inr (round2f (py_sum (map amount (weekly_terms (today - 7) (spending_transactions ts)))))"
    by (intro py_round2_acc py_sum_filter_le(2) weekly_positive)
  have m: "py_round (py_sum (map amount (spending_transactions ts))) 2
             = Inr (round2f (py_sum (map amount (spending_transactions ts))))"
    by (intro py_round2_acc py_sum_filter_le(2) spending_positive)
  show ?thesis
    unfolding spending_summary_def
    by (simp add: date_windows [OF assms] bindE_def Let_def d w m)
qed

lemma round2f_cents:
  assumes "acc_ok a" shows "rounded_to_cents a (round2f a)"
proof (cases a)
  case (Finite q)
  have "\<bar>of_int (round_half_even (q * 100)) - q * 100\<bar> \<le> 1 / 2" by (rule round_half_even_near)
  then have "\<bar>of_int (round_half_even (q * 100)) / 100 - q\<bar> \<le> 1 / 200"
    by (simp add: abs_le_iff field_simps)
  then have "\<exists>n::int. \<bar>of_int n / 100 - q\<bar> \<le> 1 / 200 \<and> round2 q = fl (of_int n / 100)"
    unfolding round2_def by blast
  then show ?thesis by (simp add: Finite rounded_to_cents_def)
qed (simp_all add: rounded_to_cents_def)

section \<open>The claims\<close>

text \<open>
  In what follows the reference date is any date on which the handler can form both
  window dates, that is any date from 0001-01-08 to 9999-12-31; on the first seven days
  of the calendar \<open>today - timedelta(days=7)\<close> raises.
\<close>

text \<open>
  C1: on an interpreter whose \<open>sum\<close> adds the amounts from left to right
  (CPython up to 3.11), the three outputs of the aggregation satisfy
  \<open>monthly >= weekly >= daily\<close> for every transaction list and reference date. With the
  compensated \<open>sum\<close> of CPython 3.12 the order can fail, as the input below shows.
\<close>

theorem monthly_ge_weekly_ge_daily:
  assumes "7 < today" "today \<le> MAXORDINAL"
  shows "\<exists>s. spending_summary today transactions = Inr s
           \<and> fge (monthly s) (weekly s) \<and> fge (weekly s) (daily s)"
proof -
  let ?S = "spending_transactions transactions"
  let ?W = "weekly_terms (today - 7) ?S"
  let ?D = "daily_terms (today - 1) ?S"
  have mw: "fge (py_sum (map amount ?S)) (py_sum (map amount ?W))"
    unfolding weekly_terms_def by (rule py_sum_filter_le(1)) (rule spending_positive)
  have wd: "fge (py_sum (map amount ?W)) (py_sum (map amount ?D))"
    unfolding daily_within_weekly by (rule py_sum_filter_le(1)) (rule weekly_positive)
  have aS: "acc_ok (py_sum (map amount ?S))" by (intro py_sum_filter_le(2) spending_positive)
  have aW: "acc_ok (py_sum (map amount ?W))" by (intro py_sum_filter_le(2) weekly_positive)
  have aD: "acc_ok (py_sum (map amount ?D))" by (intro py_sum_filter_le(2) daily_positive)
  have "fge (round2f (py_sum (map amount ?S))) (round2f (py_sum (map amount ?W)))"
    using aW aS mw by (rule round2f_mono)
  moreover have "fge (round2f (py_sum (map amount ?W))) (round2f (py_sum (map amount ?D)))"
    using aD aW wd by (rule round2f_mono)
  ultimately show ?thesis by (simp add: spending_summary_eq [OF assms])
qed

theorem monthly_ge_weekly_ge_daily_witness:
  "\<exists>s. spending_summary 739052
          [\<lparr>amount = Finite 3, date = 739052\<rparr>, \<lparr>amount = Finite (- 5), date = 739051\<rparr>,
           \<lparr>amount = Finite (1 / 4), date = 739047\<rparr>, \<lparr>amount = PInf, date = 739026\<rparr>] = Inr s
        \<and> fge (monthly s) (weekly s) \<and> fge (weekly s) (daily s)"
  by (rule monthly_ge_weekly_ge_daily) (simp_all add: MAXORDINAL_def)

subsection \<open>An input on which the compensated sum breaks the order\<close>

text \<open>
  Five amounts, each an exact double: \<open>2 ^ -52\<close> dated ten days before the reference
  date 2024-06-15, then \<open>1.0\<close>, \<open>2 ^ 53\<close>, \<open>1 - 2 ^ -53\<close> and \<open>1 - 2 ^ -52\<close> dated on
  it. The monthly total sums all five, the weekly and the daily total the last four.
\<close>

lemma ordering_amount_1:
  "to_double (1 / 4503599627370496) = Finite (1 / 4503599627370496)"
proof -
  have s1: "to_double ((1 / 4503599627370496)) = Finite (1 / 4503599627370496)"
  proof -
      have "round_half_even (((1 / 4503599627370496)) / 2 powi ((- 52) - 52)) = 4503599627370496"
        by (rule round_half_even_nearest) simp
      from fl_eval [OF _ _ _ this] have "fl ((1 / 4503599627370496)) = (1 / 4503599627370496)" by simp
      then show ?thesis by (rule to_double_eval) simp
  qed
  show ?thesis by (rule s1)
qed

lemma ordering_amount_2:
  "to_double 1 = Finite 1"
proof -
  have s1: "to_double (1) = Finite 1"
  proof -
      have "round_half_even ((1) / 2 powi (0 - 52)) = 4503599627370496"
        by (rule round_half_even_nearest) simp
      from fl_eval [OF _ _ _ this] have "fl (1) = 1" by simp
      then show ?thesis by (rule to_double_eval) simp
  qed
  show ?thesis by (rule s1)
qed

lemma ordering_amount_3:
  "to_double 9007199254740992 = Finite 9007199254740992"
proof -
  have s1: "to_double (9007199254740992) = Finite 9007199254740992"
  proof -
      have "round_half_even ((9007199254740992) / 2 powi (53 - 52)) = 4503599627370496"
        by (rule round_half_even_nearest) simp
      from fl_eval [OF _ _ _ this] have "fl (9007199254740992) = 9007199254740992" by simp
      then show ?thesis by (rule to_double_eval) simp
  qed
  show ?thesis by (rule s1)
qed

lemma ordering_amount_4:
  "to_double (9007199254740991 / 9007199254740992) = Finite (9007199254740991 / 9007199254740992)"
proof -
  have s1: "to_double ((9007199254740991 / 9007199254740992)) = Finite (9007199254740991 / 9007199254740992)"
  proof -
      have "round_half_even (((9007199254740991 / 9007199254740992)) / 2 powi ((- 1) - 52)) = 9007199254740991"
        by (rule round_half_even_nearest) simp
      from fl_eval [OF _ _ _ this] have "fl ((9007199254740991 / 9007199254740992)) = (9007199254740991 / 9007199254740992)" by simp
      then show ?thesis by (rule to_double_eval) simp
  qed
  show ?thesis by (rule s1)
qed

lemma ordering_amount_5:
  "to_double (4503599627370495 / 4503599627370496) = Finite (4503599627370495 / 4503599627370496)"
proof -
  have s1: "to_double ((4503599627370495 / 4503599627370496)) = Finite (4503599627370495 / 4503599627370496)"
  proof -
      have "round_half_even (((4503599627370495 / 4503599627370496)) / 2 powi ((- 1) - 52)) = 9007199254740990"
        by (rule round_half_even_nearest) simp
      from fl_eval [OF _ _ _ this] have "fl ((4503599627370495 / 4503599627370496)) = (4503599627370495 / 4503599627370496)" by simp
      then show ?thesis by (rule to_double_eval) simp
  qed
  show ?thesis by (rule s1)
qed

lemma compensated_sum_all_five:
  "py_sum_compensated [Finite (1 / 4503599627370496), Finite 1, Finite 9007199254740992, Finite (9007199254740991 / 9007199254740992), Finite (4503599627370495 / 4503599627370496)] = Finite 9007199254740994"
proof -
  have s1: "to_double (0 + (1 / 4503599627370496)) = Finite (1 / 4503599627370496)"
  proof -
      have "round_half_even ((0 + (1 / 4503599627370496)) / 2 powi ((- 52) - 52)) = 4503599627370496"
        by (rule round_half_even_nearest) simp
      from fl_eval [OF _ _ _ this] have "fl (0 + (1 / 4503599627370496)) = (1 / 4503599627370496)" by simp
      then show ?thesis by (rule to_double_eval) simp
  qed
  have s2: "fadd (Finite 0) (Finite (1 / 4503599627370496)) = Finite (1 / 4503599627370496)"
    by (simp only: fadd.simps s1)
  have s3: "to_double ((1 / 4503599627370496) + 1) = Finite (4503599627370497 / 4503599627370496)"
  proof -
      have "round_half_even (((1 / 4503599627370496) + 1) / 2 powi (0 - 52)) = 4503599627370497"
        by (rule round_half_even_nearest) simp
      from fl_eval [OF _ _ _ this] have "fl ((1 / 4503599627370496) + 1) = (4503599627370497 / 4503599627370496)" by simp
      then show ?thesis by (rule to_double_eval) simp
  qed
  have s4: "fadd (Finite (1 / 4503599627370496)) (Finite 1) = Finite (4503599627370497 / 4503599627370496)"
    by (simp only: fadd.simps s3)
  have s5: "fge (fabs (Finite (1 / 4503599627370496))) (fabs (Finite 1)) = False"
    by simp
  have s6: "to_double (1 - (4503599627370497 / 4503599627370496)) = Finite (- 1 / 4503599627370496)"
  proof -
      have "round_half_even ((1 - (4503599627370497 / 4503599627370496)) / 2 powi ((- 52) - 52)) = (- 4503599627370496)"
        by (rule round_half_even_nearest) simp
      from fl_eval [OF _ _ _ this] have "fl (1 - (4503599627370497 / 4503599627370496)) = (- 1 / 4503599627370496)" by simp
      then show ?thesis by (rule to_double_eval) simp
  qed
  have s7: "fsub (Finite 1) (Finite (4503599627370497 / 4503599627370496)) = Finite (- 1 / 4503599627370496)"
    by (simp only: fsub_Finite s6)
  have s8: "to_double ((- 1 / 4503599627370496) + (1 / 4503599627370496)) = Finite 0"
    by (simp add: to_double_zero)
  have s9: "fadd (Finite (- 1 / 4503599627370496)) (Finite (1 / 4503599627370496)) = Finite 0"
    by (simp only: fadd.simps s8)
  have s10: "to_double (0 + 0) = Finite 0"
    by (simp add: to_double_zero)
  have s11: "fadd (Finite 0) (Finite 0) = Finite 0"
    by (simp only: fadd.simps s10)
  have s12: "to_double ((4503599627370497 / 4503599627370496) + 9007199254740992) = Finite 9007199254740994"
  proof -
      have "round_half_even (((4503599627370497 / 4503599627370496) + 9007199254740992) / 2 powi (53 - 52)) = 4503599627370497"
        by (rule round_half_even_nearest) simp
      from fl_eval [OF _ _ _ this] have "fl ((4503599627370497 / 4503599627370496) + 9007199254740992) = 9007199254740994" by simp
      then show ?thesis by (rule to_double_eval) simp
  qed
  have s13: "fadd (Finite (4503599627370497 / 4503599627370496)) (Finite 9007199254740992) = Finite 9007199254740994"
    by (simp only: fadd.simps s12)
  have s14: "fge (fabs (Finite (4503599627370497 / 4503599627370496))) (fabs (Finite 9007199254740992)) = False"
    by simp
  have s15: "to_double (9007199254740992 - 9007199254740994) = Finite (- 2)"
  proof -
      have "round_half_even ((9007199254740992 - 9007199254740994) / 2 powi (1 - 52)) = (- 4503599627370496)"
        by (rule round_half_even_nearest) simp
      from fl_eval [OF _ _ _ this] have "fl (9007199254740992 - 9007199254740994) = (- 2)" by simp
      then show ?thesis by (rule to_double_eval) simp
  qed
  have s16: "fsub (Finite 9007199254740992) (Finite 9007199254740994) = Finite (- 2)"
    by (simp only: fsub_Finite s15)
  have s17: "to_double ((- 2) + (4503599627370497 / 4503599627370496)) = Finite (- 4503599627370495 / 4503599627370496)"
  proof -
      have "round_half_even (((- 2) + (4503599627370497 / 4503599627370496)) / 2 powi ((- 1) - 52)) = (- 9007199254740990)"
        by (rule round_half_even_nearest) simp
      from fl_eval [OF _ _ _ this] have "fl ((- 2) + (4503599627370497 / 4503599627370496)) = (- 4503599627370495 / 4503599627370496)" by simp
      then show ?thesis by (rule to_double_eval) simp
  qed
  have s18: "fadd (Finite (- 2)) (Finite (4503599627370497 / 4503599627370496)) = Finite (- 4503599627370495 / 4503599627370496)"
    by (simp only: fadd.simps s17)
  have s19: "to_double (0 + (- 4503599627370495 / 4503599627370496)) = Finite (- 4503599627370495 / 4503599627370496)"
  proof -
      have "round_half_even ((0 + (- 4503599627370495 / 4503599627370496)) / 2 powi ((- 1) - 52)) = (- 9007199254740990)"
        by (rule round_half_even_nearest) simp
      from fl_eval [OF _ _ _ this] have "fl (0 + (- 4503599627370495 / 4503599627370496)) = (- 4503599627370495 / 4503599627370496)" by simp
      then show ?thesis by (rule to_double_eval) simp
  qed
  have s20: "fadd (Finite 0) (Finite (- 4503599627370495 / 4503599627370496)) = Finite (- 4503599627370495 / 4503599627370496)"
    by (simp only: fadd.simps s19)
  have s21: "to_double (9007199254740994 + (9007199254740991 / 9007199254740992)) = Finite 9007199254740994"
  proof -
      have "round_half_even ((9007199254740994 + (9007199254740991 / 9007199254740992)) / 2 powi (53 - 52)) = 4503599627370497"
        by (rule round_half_even_nearest) simp
      from fl_eval [OF _ _ _ this] have "fl (9007199254740994 + (9007199254740991 / 9007199254740992)) = 9007199254740994" by simp
      then show ?thesis by (rule to_double_eval) simp
  qed
  have s22: "fadd (Finite 9007199254740994) (Finite (9007199254740991 / 9007199254740992)) = Finite 9007199254740994"
    by (simp only: fadd.simps s21)
  have s23: "fge (fabs (Finite 9007199254740994)) (fabs (Finite (9007199254740991 / 9007199254740992))) = True"
    by simp
  have s24: "to_double (9007199254740994 - 9007199254740994) = Finite 0"
    by (simp add: to_double_zero)
  have s25: "fsub (Finite 9007199254740994) (Finite 9007199254740994) = Finite 0"
    by (simp only: fsub_Finite s24)
  have s26: "to_double (0 + (9007199254740991 / 9007199254740992)) = Finite (9007199254740991 / 9007199254740992)"
  proof -
      have "round_half_even ((0 + (9007199254740991 / 9007199254740992)) / 2 powi ((- 1) - 52)) = 9007199254740991"
        by (rule round_half_even_nearest) simp
      from fl_eval [OF _ _ _ this] have "fl (0 + (9007199254740991 / 9007199254740992)) = (9007199254740991 / 9007199254740992)" by simp
      then show ?thesis by (rule to_double_eval) simp
  qed
  have s27: "fadd (Finite 0) (Finite (9007199254740991 / 9007199254740992)) = Finite (9007199254740991 / 9007199254740992)"
    by (simp only: fadd.simps s26)
  have s28: "to_double ((- 4503599627370495 / 4503599627370496) + (9007199254740991 / 9007199254740992)) = Finite (1 / 9007199254740992)"
  proof -
      have "round_half_even (((- 4503599627370495 / 4503599627370496) + (9007199254740991 / 9007199254740992)) / 2 powi ((- 53) - 52)) = 4503599627370496"
        by (rule round_half_even_nearest) simp
      from fl_eval [OF _ _ _ this] have "fl ((- 4503599627370495 / 4503599627370496) + (9007199254740991 / 9007199254740992)) = (1 / 9007199254740992)" by simp
      then show ?thesis by (rule to_double_eval) simp
  qed
  have s29: "fadd (Finite (- 4503599627370495 / 4503599627370496)) (Finite (9007199254740991 / 9007199254740992)) = Finite (1 / 9007199254740992)"
    by (simp only: fadd.simps s28)
  have s30: "to_double (9007199254740994 + (4503599627370495 / 4503599627370496)) = Finite 9007199254740994"
  proof -
      have "round_half_even ((9007199254740994 + (4503599627370495 / 4503599627370496)) / 2 powi (53 - 52)) = 4503599627370497"
        by (rule round_half_even_nearest) simp
      from fl_eval [OF _ _ _ this] have "fl (9007199254740994 + (4503599627370495 / 4503599627370496)) = 9007199254740994" by simp
      then show ?thesis by (rule to_double_eval) simp
  qed
  have s31: "fadd (Finite 9007199254740994) (Finite (4503599627370495 / 4503599627370496)) = Finite 9007199254740994"
    by (simp only: fadd.simps s30)
  have s32: "fge (fabs (Finite 9007199254740994)) (fabs (Finite (4503599627370495 / 4503599627370496))) = True"
    by simp
  have s33: "to_double (0 + (4503599627370495 / 4503599627370496)) = Finite (4503599627370495 / 4503599627370496)"
  proof -
      have "round_half_even ((0 + (4503599627370495 / 4503599627370496)) / 2 powi ((- 1) - 52)) = 9007199254740990"
        by (rule round_half_even_nearest) simp
      from fl_eval [OF _ _ _ this] have "fl (0 + (4503599627370495 / 4503599627370496)) = (4503599627370495 / 4503599627370496)" by simp
      then show ?thesis by (rule to_double_eval) simp
  qed
  have s34: "fadd (Finite 0) (Finite (4503599627370495 / 4503599627370496)) = Finite (4503599627370495 / 4503599627370496)"
    by (simp only: fadd.simps s33)
  have s35: "to_double ((1 / 9007199254740992) + (4503599627370495 / 4503599627370496)) = Finite (9007199254740991 / 9007199254740992)"
  proof -
      have "round_half_even (((1 / 9007199254740992) + (4503599627370495 / 4503599627370496)) / 2 powi ((- 1) - 52)) = 9007199254740991"
        by (rule round_half_even_nearest) simp
      from fl_eval [OF _ _ _ this] have "fl ((1 / 9007199254740992) + (4503599627370495 / 4503599627370496)) = (9007199254740991 / 9007199254740992)" by simp
      then show ?thesis by (rule to_double_eval) simp
  qed
  have s36: "fadd (Finite (1 / 9007199254740992)) (Finite (4503599627370495 / 4503599627370496)) = Finite (9007199254740991 / 9007199254740992)"
    by (simp only: fadd.simps s35)
  have s37: "(Finite (9007199254740991 / 9007199254740992) \<noteq> Finite 0 \<and> is_finite (Finite (9007199254740991 / 9007199254740992))) = True"
    by simp
  show ?thesis
    by (simp only: py_sum_compensated_def list.case neumaier.simps Let_def if_True if_False
        s1 s2 s3 s4 s5 s6 s7 s8 s9 s10 s11 s12 s13 s14 s15 s16 s17 s18 s19 s20 s21 s22 s23 s24 s25 s26 s27 s28 s29 s30 s31 s32 s33 s34 s35 s36 s37)
qed

lemma compensated_sum_last_four:
  "py_sum_compensated [Finite 1, Finite 9007199254740992, Finite (9007199254740991 / 9007199254740992), Finite (4503599627370495 / 4503599627370496)] = Finite 9007199254740996"
proof -
  have s1: "to_double (0 + 1) = Finite 1"
  proof -
      have "round_half_even ((0 + 1) / 2 powi (0 - 52)) = 4503599627370496"
        by (rule round_half_even_nearest) simp
      from fl_eval [OF _ _ _ this] have "fl (0 + 1) = 1" by simp
      then show ?thesis by (rule to_double_eval) simp
  qed
  have s2: "fadd (Finite 0) (Finite 1) = Finite 1"
    by (simp only: fadd.simps s1)
  have s3: "to_double (1 + 9007199254740992) = Finite 9007199254740992"
  proof -
      have "round_half_even ((1 + 9007199254740992) / 2 powi (53 - 52)) = (if even (4503599627370496::int) then 4503599627370496 else 4503599627370496 + 1)"
        by (rule round_half_even_tie) simp
      then have "round_half_even ((1 + 9007199254740992) / 2 powi (53 - 52)) = 4503599627370496" by simp
      from fl_eval [OF _ _ _ this] have "fl (1 + 9007199254740992) = 9007199254740992" by simp
      then show ?thesis by (rule to_double_eval) simp
  qed
  have s4: "fadd (Finite 1) (Finite 9007199254740992) = Finite 9007199254740992"
    by (simp only: fadd.simps s3)
  have s5: "fge (fabs (Finite 1)) (fabs (Finite 9007199254740992)) = False"
    by simp
  have s6: "to_double (9007199254740992 - 9007199254740992) = Finite 0"
    by (simp add: to_double_zero)
  have s7: "fsub (Finite 9007199254740992) (Finite 9007199254740992) = Finite 0"
    by (simp only: fsub_Finite s6)
  have s8: "to_double (9007199254740992 + (9007199254740991 / 9007199254740992)) = Finite 9007199254740992"
  proof -
      have "round_half_even ((9007199254740992 + (9007199254740991 / 9007199254740992)) / 2 powi (53 - 52)) = 4503599627370496"
        by (rule round_half_even_nearest) simp
      from fl_eval [OF _ _ _ this] have "fl (9007199254740992 + (9007199254740991 / 9007199254740992)) = 9007199254740992" by simp
      then show ?thesis by (rule to_double_eval) simp
  qed
  have s9: "fadd (Finite 9007199254740992) (Finite (9007199254740991 / 9007199254740992)) = Finite 9007199254740992"
    by (simp only: fadd.simps s8)
  have s10: "fge (fabs (Finite 9007199254740992)) (fabs (Finite (9007199254740991 / 9007199254740992))) = True"
    by simp
  have s11: "to_double (0 + (9007199254740991 / 9007199254740992)) = Finite (9007199254740991 / 9007199254740992)"
  proof -
      have "round_half_even ((0 + (9007199254740991 / 9007199254740992)) / 2 powi ((- 1) - 52)) = 9007199254740991"
        by (rule round_half_even_nearest) simp
      from fl_eval [OF _ _ _ this] have "fl (0 + (9007199254740991 / 9007199254740992)) = (9007199254740991 / 9007199254740992)" by simp
      then show ?thesis by (rule to_double_eval) simp
  qed
  have s12: "fadd (Finite 0) (Finite (9007199254740991 / 9007199254740992)) = Finite (9007199254740991 / 9007199254740992)"
    by (simp only: fadd.simps s11)
  have s13: "to_double (1 + (9007199254740991 / 9007199254740992)) = Finite 2"
  proof -
      have "round_half_even ((1 + (9007199254740991 / 9007199254740992)) / 2 powi (0 - 52)) = (if even (9007199254740991::int) then 9007199254740991 else 9007199254740991 + 1)"
        by (rule round_half_even_tie) simp
      then have "round_half_even ((1 + (9007199254740991 / 9007199254740992)) / 2 powi (0 - 52)) = 9007199254740992" by simp
      from fl_eval [OF _ _ _ this] have "fl (1 + (9007199254740991 / 9007199254740992)) = 2" by simp
      then show ?thesis by (rule to_double_eval) simp
  qed
  have s14: "fadd (Finite 1) (Finite (9007199254740991 / 9007199254740992)) = Finite 2"
    by (simp only: fadd.simps s13)
  have s15: "to_double (9007199254740992 + (4503599627370495 / 4503599627370496)) = Finite 9007199254740992"
  proof -
      have "round_half_even ((9007199254740992 + (4503599627370495 / 4503599627370496)) / 2 powi (53 - 52)) = 4503599627370496"
        by (rule round_half_even_nearest) simp
      from fl_eval [OF _ _ _ this] have "fl (9007199254740992 + (4503599627370495 / 4503599627370496)) = 9007199254740992" by simp
      then show ?thesis by (rule to_double_eval) simp
  qed
  have s16: "fadd (Finite 9007199254740992) (Finite (4503599627370495 / 4503599627370496)) = Finite 9007199254740992"
    by (simp only: fadd.simps s15)
  have s17: "fge (fabs (Finite 9007199254740992)) (fabs (Finite (4503599627370495 / 4503599627370496))) = True"
    by simp
  have s18: "to_double (0 + (4503599627370495 / 4503599627370496)) = Finite (4503599627370495 / 4503599627370496)"
  proof -
      have "round_half_even ((0 + (4503599627370495 / 4503599627370496)) / 2 powi ((- 1) - 52)) = 9007199254740990"
        by (rule round_half_even_nearest) simp
      from fl_eval [OF _ _ _ this] have "fl (0 + (4503599627370495 / 4503599627370496)) = (4503599627370495 / 4503599627370496)" by simp
      then show ?thesis by (rule to_double_eval) simp
  qed
  have s19: "fadd (Finite 0) (Finite (4503599627370495 / 4503599627370496)) = Finite (4503599627370495 / 4503599627370496)"
    by (simp only: fadd.simps s18)
  have s20: "to_double (2 + (4503599627370495 / 4503599627370496)) = Finite 3"
  proof -
      have "round_half_even ((2 + (4503599627370495 / 4503599627370496)) / 2 powi (1 - 52)) = (if even (6755399441055743::int) then 6755399441055743 else 6755399441055743 + 1)"
        by (rule round_half_even_tie) simp
      then have "round_half_even ((2 + (4503599627370495 / 4503599627370496)) / 2 powi (1 - 52)) = 6755399441055744" by simp
      from fl_eval [OF _ _ _ this] have "fl (2 + (4503599627370495 / 4503599627370496)) = 3" by simp
      then show ?thesis by (rule to_double_eval) simp
  qed
  have s21: "fadd (Finite 2) (Finite (4503599627370495 / 4503599627370496)) = Finite 3"
    by (simp only: fadd.simps s20)
  have s22: "(Finite 3 \<noteq> Finite 0 \<and> is_finite (Finite 3)) = True"
    by simp
  have s23: "to_double (9007199254740992 + 3) = Finite 9007199254740996"
  proof -
      have "round_half_even ((9007199254740992 + 3) / 2 powi (53 - 52)) = (if even (4503599627370497::int) then 4503599627370497 else 4503599627370497 + 1)"
        by (rule round_half_even_tie) simp
      then have "round_half_even ((9007199254740992 + 3) / 2 powi (53 - 52)) = 4503599627370498" by simp
      from fl_eval [OF _ _ _ this] have "fl (9007199254740992 + 3) = 9007199254740996" by simp
      then show ?thesis by (rule to_double_eval) simp
  qed
  have s24: "fadd (Finite 9007199254740992) (Finite 3) = Finite 9007199254740996"
    by (simp only: fadd.simps s23)
  show ?thesis
    by (simp only: py_sum_compensated_def list.case neumaier.simps Let_def if_True if_False
        s1 s2 s3 s4 s5 s6 s7 s8 s9 s10 s11 s12 s13 s14 s15 s16 s17 s18 s19 s20 s21 s22 s23 s24)
qed

lemma plain_sum_all_five:
  "py_sum [Finite (1 / 4503599627370496), Finite 1, Finite 9007199254740992, Finite (9007199254740991 / 9007199254740992), Finite (4503599627370495 / 4503599627370496)] = Finite 9007199254740994"
proof -
  have s1: "to_double (0 + (1 / 4503599627370496)) = Finite (1 / 4503599627370496)"
  proof -
      have "round_half_even ((0 + (1 / 4503599627370496)) / 2 powi ((- 52) - 52)) = 4503599627370496"
        by (rule round_half_even_nearest) simp
      from fl_eval [OF _ _ _ this] have "fl (0 + (1 / 4503599627370496)) = (1 / 4503599627370496)" by simp
      then show ?thesis by (rule to_double_eval) simp
  qed
  have s2: "fadd (Finite 0) (Finite (1 / 4503599627370496)) = Finite (1 / 4503599627370496)"
    by (simp only: fadd.simps s1)
  have s3: "to_double ((1 / 4503599627370496) + 1) = Finite (4503599627370497 / 4503599627370496)"
  proof -
      have "round_half_even (((1 / 4503599627370496) + 1) / 2 powi (0 - 52)) = 4503599627370497"
        by (rule round_half_even_nearest) simp
      from fl_eval [OF _ _ _ this] have "fl ((1 / 4503599627370496) + 1) = (4503599627370497 / 4503599627370496)" by simp
      then show ?thesis by (rule to_double_eval) simp
  qed
  have s4: "fadd (Finite (1 / 4503599627370496)) (Finite 1) = Finite (4503599627370497 / 4503599627370496)"
    by (simp only: fadd.simps s3)
  have s5: "to_double ((4503599627370497 / 4503599627370496) + 9007199254740992) = Finite 9007199254740994"
  proof -
      have "round_half_even (((4503599627370497 / 4503599627370496) + 9007199254740992) / 2 powi (53 - 52)) = 4503599627370497"
        by (rule round_half_even_nearest) simp
      from fl_eval [OF _ _ _ this] have "fl ((4503599627370497 / 4503599627370496) + 9007199254740992) = 9007199254740994" by simp
      then show ?thesis by (rule to_double_eval) simp
  qed
  have s6: "fadd (Finite (4503599627370497 / 4503599627370496)) (Finite 9007199254740992) = Finite 9007199254740994"
    by (simp only: fadd.simps s5)
  have s7: "to_double (9007199254740994 + (9007199254740991 / 9007199254740992)) = Finite 9007199254740994"
  proof -
      have "round_half_even ((9007199254740994 + (9007199254740991 / 9007199254740992)) / 2 powi (53 - 52)) = 4503599627370497"
        by (rule round_half_even_nearest) simp
      from fl_eval [OF _ _ _ this] have "fl (9007199254740994 + (9007199254740991 / 9007199254740992)) = 9007199254740994" by simp
      then show ?thesis by (rule to_double_eval) simp
  qed
  have s8: "fadd (Finite 9007199254740994) (Finite (9007199254740991 / 9007199254740992)) = Finite 9007199254740994"
    by (simp only: fadd.simps s7)
  have s9: "to_double (9007199254740994 + (4503599627370495 / 4503599627370496)) = Finite 9007199254740994"
  proof -
      have "round_half_even ((9007199254740994 + (4503599627370495 / 4503599627370496)) / 2 powi (53 - 52)) = 4503599627370497"
        by (rule round_half_even_nearest) simp
      from fl_eval [OF _ _ _ this] have "fl (9007199254740994 + (4503599627370495 / 4503599627370496)) = 9007199254740994" by simp
      then show ?thesis by (rule to_double_eval) simp
  qed
  have s10: "fadd (Finite 9007199254740994) (Finite (4503599627370495 / 4503599627370496)) = Finite 9007199254740994"
    by (simp only: fadd.simps s9)
  show ?thesis
    by (simp only: py_sum_def foldl.simps s1 s2 s3 s4 s5 s6 s7 s8 s9 s10)
qed

lemma plain_sum_last_four:
  "py_sum [Finite 1, Finite 9007199254740992, Finite (9007199254740991 / 9007199254740992), Finite (4503599627370495 / 4503599627370496)] = Finite 9007199254740992"
proof -
  have s1: "to_double (0 + 1) = Finite 1"
  proof -
      have "round_half_even ((0 + 1) / 2 powi (0 - 52)) = 4503599627370496"
        by (rule round_half_even_nearest) simp
      from fl_eval [OF _ _ _ this] have "fl (0 + 1) = 1" by simp
      then show ?thesis by (rule to_double_eval) simp
  qed
  have s2: "fadd (Finite 0) (Finite 1) = Finite 1"
    by (simp only: fadd.simps s1)
  have s3: "to_double (1 + 9007199254740992) = Finite 9007199254740992"
  proof -
      have "round_half_even ((1 + 9007199254740992) / 2 powi (53 - 52)) = (if even (4503599627370496::int) then 4503599627370496 else 4503599627370496 + 1)"
        by (rule round_half_even_tie) simp
      then have "round_half_even ((1 + 9007199254740992) / 2 powi (53 - 52)) = 4503599627370496" by simp
      from fl_eval [OF _ _ _ this] have "fl (1 + 9007199254740992) = 9007199254740992" by simp
      then show ?thesis by (rule to_double_eval) simp
  qed
  have s4: "fadd (Finite 1) (Finite 9007199254740992) = Finite 9007199254740992"
    by (simp only: fadd.simps s3)
  have s5: "to_double (9007199254740992 + (9007199254740991 / 9007199254740992)) = Finite 9007199254740992"
  proof -
      have "round_half_even ((9007199254740992 + (9007199254740991 / 9007199254740992)) / 2 powi (53 - 52)) = 4503599627370496"
        by (rule round_half_even_nearest) simp
      from fl_eval [OF _ _ _ this] have "fl (9007199254740992 + (9007199254740991 / 9007199254740992)) = 9007199254740992" by simp
      then show ?thesis by (rule to_double_eval) simp
  qed
  have s6: "fadd (Finite 9007199254740992) (Finite (9007199254740991 / 9007199254740992)) = Finite 9007199254740992"
    by (simp only: fadd.simps s5)
  have s7: "to_double (9007199254740992 + (4503599627370495 / 4503599627370496)) = Finite 9007199254740992"
  proof -
      have "round_half_even ((9007199254740992 + (4503599627370495 / 4503599627370496)) / 2 powi (53 - 52)) = 4503599627370496"
        by (rule round_half_even_nearest) simp
      from fl_eval [OF _ _ _ this] have "fl (9007199254740992 + (4503599627370495 / 4503599627370496)) = 9007199254740992" by simp
      then show ?thesis by (rule to_double_eval) simp
  qed
  have s8: "fadd (Finite 9007199254740992) (Finite (4503599627370495 / 4503599627370496)) = Finite 9007199254740992"
    by (simp only: fadd.simps s7)
  show ?thesis
    by (simp only: py_sum_def foldl.simps s1 s2 s3 s4 s5 s6 s7 s8)
qed

lemma round_ordering_all_five:
  "py_round (Finite 9007199254740994) 2 = Inr (Finite 9007199254740994)"
proof -
  have n: "round_half_even (9007199254740994 * 100) = 900719925474099400"
    by (rule round_half_even_nearest) simp
  have r: "fl (of_int 900719925474099400 / 100) = 9007199254740994"
  proof -
    have "round_half_even ((of_int 900719925474099400 / 100) / 2 powi (53 - 52)) = 4503599627370497"
      by (rule round_half_even_nearest) simp
    from fl_eval [OF _ _ _ this] have "fl (of_int 900719925474099400 / 100) = 9007199254740994" by simp
    then show ?thesis .
  qed
  from n r show ?thesis by (rule py_round2_eval) simp
qed

lemma round_ordering_last_four:
  "py_round (Finite 9007199254740996) 2 = Inr (Finite 9007199254740996)"
proof -
  have n: "round_half_even (9007199254740996 * 100) = 900719925474099600"
    by (rule round_half_even_nearest) simp
  have r: "fl (of_int 900719925474099600 / 100) = 9007199254740996"
  proof -
    have "round_half_even ((of_int 900719925474099600 / 100) / 2 powi (53 - 52)) = 4503599627370498"
      by (rule round_half_even_nearest) simp
    from fl_eval [OF _ _ _ this] have "fl (of_int 900719925474099600 / 100) = 9007199254740996" by simp
    then show ?thesis .
  qed
  from n r show ?thesis by (rule py_round2_eval) simp
qed

lemma round_ordering_plain_last_four:
  "py_round (Finite 9007199254740992) 2 = Inr (Finite 9007199254740992)"
proof -
  have n: "round_half_even (9007199254740992 * 100) = 900719925474099200"
    by (rule round_half_even_nearest) simp
  have r: "fl (of_int 900719925474099200 / 100) = 9007199254740992"
  proof -
    have "round_half_even ((of_int 900719925474099200 / 100) / 2 powi (53 - 52)) = 4503599627370496"
      by (rule round_half_even_nearest) simp
    from fl_eval [OF _ _ _ this] have "fl (of_int 900719925474099200 / 100) = 9007199254740992" by simp
    then show ?thesis .
  qed
  from n r show ?thesis by (rule py_round2_eval) simp
qed

lemma ordering_example_plain:
  "spending_summary 739052
     [\<lparr>amount = Finite (1 / 4503599627370496), date = 739042\<rparr>,
      \<lparr>amount = Finite 1, date = 739052\<rparr>,
      \<lparr>amount = Finite 9007199254740992, date = 739052\<rparr>,
      \<lparr>amount = Finite (9007199254740991 / 9007199254740992), date = 739052\<rparr>,
      \<lparr>amount = Finite (4503599627370495 / 4503599627370496), date = 739052\<rparr>]
   = Inr \<lparr>daily = Finite 9007199254740992, weekly = Finite 9007199254740992,
          monthly = Finite 9007199254740994\<rparr>"
  by (simp add: spending_summary_def spending_transactions_def daily_terms_def weekly_terms_def
      date_sub_days_def MAXORDINAL_def bindE_def Let_def plain_sum_all_five plain_sum_last_four
      round_ordering_all_five round_ordering_plain_last_four)

text \<open>
  With the compensated sum the monthly output of this input is smaller than the weekly
  one: \<open>9007199254740994.0 < 9007199254740996.0\<close>.
\<close>

theorem ordering_fails_with_compensated_sum:
  "spending_summary_compensated 739052
     [\<lparr>amount = Finite (1 / 4503599627370496), date = 739042\<rparr>,
      \<lparr>amount = Finite 1, date = 739052\<rparr>,
      \<lparr>amount = Finite 9007199254740992, date = 739052\<rparr>,
      \<lparr>amount = Finite (9007199254740991 / 9007199254740992), date = 739052\<rparr>,
      \<lparr>amount = Finite (4503599627370495 / 4503599627370496), date = 739052\<rparr>]
   = Inr \<lparr>daily = Finite 9007199254740996, weekly = Finite 9007199254740996,
          monthly = Finite 9007199254740994\<rparr>
   \<and> \<not> fge (Finite 9007199254740994) (Finite 9007199254740996)"
  by (simp add: spending_summary_compensated_def spending_transactions_def daily_terms_def
      weekly_terms_def date_sub_days_def MAXORDINAL_def bindE_def Let_def compensated_sum_all_five
      compensated_sum_last_four round_ordering_all_five round_ordering_last_four)

subsection \<open>The example scenario\<close>

lemma example_compensated_sum_1:
  "py_sum_compensated [Finite (5913789260690883 / 562949953421312)] = Finite (5913789260690883 / 562949953421312)"
proof -
  have s1: "to_double (0 + (5913789260690883 / 562949953421312)) = Finite (5913789260690883 / 562949953421312)"
  proof -
      have "round_half_even ((0 + (5913789260690883 / 562949953421312)) / 2 powi (3 - 52)) = 5913789260690883"
        by (rule round_half_even_nearest) simp
      from fl_eval [OF _ _ _ this] have "fl (0 + (5913789260690883 / 562949953421312)) = (5913789260690883 / 562949953421312)" by simp
      then show ?thesis by (rule to_double_eval) simp
  qed
  have s2: "fadd (Finite 0) (Finite (5913789260690883 / 562949953421312)) = Finite (5913789260690883 / 562949953421312)"
    by (simp only: fadd.simps s1)
  have s3: "(Finite 0 \<noteq> Finite 0 \<and> is_finite (Finite 0)) = False"
    by simp
  show ?thesis
    by (simp only: py_sum_compensated_def list.case neumaier.simps Let_def if_True if_False
        s1 s2 s3)
qed

lemma example_plain_sum_1:
  "py_sum [Finite (5913789260690883 / 562949953421312)] = Finite (5913789260690883 / 562949953421312)"
proof -
  have s1: "to_double (0 + (5913789260690883 / 562949953421312)) = Finite (5913789260690883 / 562949953421312)"
  proof -
      have "round_half_even ((0 + (5913789260690883 / 562949953421312)) / 2 powi (3 - 52)) = 5913789260690883"
        by (rule round_half_even_nearest) simp
      from fl_eval [OF _ _ _ this] have "fl (0 + (5913789260690883 / 562949953421312)) = (5913789260690883 / 562949953421312)" by simp
      then show ?thesis by (rule to_double_eval) simp
  qed
  have s2: "fadd (Finite 0) (Finite (5913789260690883 / 562949953421312)) = Finite (5913789260690883 / 562949953421312)"
    by (simp only: fadd.simps s1)
  show ?thesis
    by (simp only: py_sum_def foldl.simps s1 s2)
qed

lemma example_round_1:
  "py_round (Finite (5913789260690883 / 562949953421312)) 2 = Inr (Finite (5916604010457989 / 562949953421312))"
proof -
  have n: "round_half_even ((5913789260690883 / 562949953421312) * 100) = 1051"
    by (rule round_half_even_nearest) simp
  have r: "fl (of_int 1051 / 100) = (5916604010457989 / 562949953421312)"
  proof -
    have "round_half_even ((of_int 1051 / 100) / 2 powi (3 - 52)) = 5916604010457989"
      by (rule round_half_even_nearest) simp
    from fl_eval [OF _ _ _ this] have "fl (of_int 1051 / 100) = (5916604010457989 / 562949953421312)" by simp
    then show ?thesis .
  qed
  from n r show ?thesis by (rule py_round2_eval) simp
qed

lemma example_compensated_sum_2:
  "py_sum_compensated [Finite (5913789260690883 / 562949953421312), Finite 20] = Finite (4293197082279281 / 140737488355328)"
proof -
  have s1: "to_double (0 + (5913789260690883 / 562949953421312)) = Finite (5913789260690883 / 562949953421312)"
  proof -
      have "round_half_even ((0 + (5913789260690883 / 562949953421312)) / 2 powi (3 - 52)) = 5913789260690883"
        by (rule round_half_even_nearest) simp
      from fl_eval [OF _ _ _ this] have "fl (0 + (5913789260690883 / 562949953421312)) = (5913789260690883 / 562949953421312)" by simp
      then show ?thesis by (rule to_double_eval) simp
  qed
  have s2: "fadd (Finite 0) (Finite (5913789260690883 / 562949953421312)) = Finite (5913789260690883 / 562949953421312)"
    by (simp only: fadd.simps s1)
  have s3: "to_double ((5913789260690883 / 562949953421312) + 20) = Finite (4293197082279281 / 140737488355328)"
  proof -
      have "round_half_even (((5913789260690883 / 562949953421312) + 20) / 2 powi (4 - 52)) = (if even (8586394164558561::int) then 8586394164558561 else 8586394164558561 + 1)"
        by (rule round_half_even_tie) simp
      then have "round_half_even (((5913789260690883 / 562949953421312) + 20) / 2 powi (4 - 52)) = 8586394164558562" by simp
      from fl_eval [OF _ _ _ this] have "fl ((5913789260690883 / 562949953421312) + 20) = (4293197082279281 / 140737488355328)" by simp
      then show ?thesis by (rule to_double_eval) simp
  qed
  have s4: "fadd (Finite (5913789260690883 / 562949953421312)) (Finite 20) = Finite (4293197082279281 / 140737488355328)"
    by (simp only: fadd.simps s3)
  have s5: "fge (fabs (Finite (5913789260690883 / 562949953421312))) (fabs (Finite 20)) = False"
    by simp
  have s6: "to_double (20 - (4293197082279281 / 140737488355328)) = Finite (- 1478447315172721 / 140737488355328)"
  proof -
      have "round_half_even ((20 - (4293197082279281 / 140737488355328)) / 2 powi (3 - 52)) = (- 5913789260690884)"
        by (rule round_half_even_nearest) simp
      from fl_eval [OF _ _ _ this] have "fl (20 - (4293197082279281 / 140737488355328)) = (- 1478447315172721 / 140737488355328)" by simp
      then show ?thesis by (rule to_double_eval) simp
  qed
  have s7: "fsub (Finite 20) (Finite (4293197082279281 / 140737488355328)) = Finite (- 1478447315172721 / 140737488355328)"
    by (simp only: fsub_Finite s6)
  have s8: "to_double ((- 1478447315172721 / 140737488355328) + (5913789260690883 / 562949953421312)) = Finite (- 1 / 562949953421312)"
  proof -
      have "round_half_even (((- 1478447315172721 / 140737488355328) + (5913789260690883 / 562949953421312)) / 2 powi ((- 49) - 52)) = (- 4503599627370496)"
        by (rule round_half_even_nearest) simp
      from fl_eval [OF _ _ _ this] have "fl ((- 1478447315172721 / 140737488355328) + (5913789260690883 / 562949953421312)) = (- 1 / 562949953421312)" by simp
      then show ?thesis by (rule to_double_eval) simp
  qed
  have s9: "fadd (Finite (- 1478447315172721 / 140737488355328)) (Finite (5913789260690883 / 562949953421312)) = Finite (- 1 / 562949953421312)"
    by (simp only: fadd.simps s8)
  have s10: "to_double (0 + (- 1 / 562949953421312)) = Finite (- 1 / 562949953421312)"
  proof -
      have "round_half_even ((0 + (- 1 / 562949953421312)) / 2 powi ((- 49) - 52)) = (- 4503599627370496)"
        by (rule round_half_even_nearest) simp
      from fl_eval [OF _ _ _ this] have "fl (0 + (- 1 / 562949953421312)) = (- 1 / 562949953421312)" by simp
      then show ?thesis by (rule to_double_eval) simp
  qed
  have s11: "fadd (Finite 0) (Finite (- 1 / 562949953421312)) = Finite (- 1 / 562949953421312)"
    by (simp only: fadd.simps s10)
  have s12: "(Finite (- 1 / 562949953421312) \<noteq> Finite 0 \<and> is_finite (Finite (- 1 / 562949953421312))) = True"
    by simp
  have s13: "to_double ((4293197082279281 / 140737488355328) + (- 1 / 562949953421312)) = Finite (4293197082279281 / 140737488355328)"
  proof -
      have "round_half_even (((4293197082279281 / 140737488355328) + (- 1 / 562949953421312)) / 2 powi (4 - 52)) = (if even (8586394164558561::int) then 8586394164558561 else 8586394164558561 + 1)"
        by (rule round_half_even_tie) simp
      then have "round_half_even (((4293197082279281 / 140737488355328) + (- 1 / 562949953421312)) / 2 powi (4 - 52)) = 8586394164558562" by simp
      from fl_eval [OF _ _ _ this] have "fl ((4293197082279281 / 140737488355328) + (- 1 / 562949953421312)) = (4293197082279281 / 140737488355328)" by simp
      then show ?thesis by (rule to_double_eval) simp
  qed
  have s14: "fadd (Finite (4293197082279281 / 140737488355328)) (Finite (- 1 / 562949953421312)) = Finite (4293197082279281 / 140737488355328)"
    by (simp only: fadd.simps s13)
  show ?thesis
    by (simp only: py_sum_compensated_def list.case neumaier.simps Let_def if_True if_False
        s1 s2 s3 s4 s5 s6 s7 s8 s9 s10 s11 s12 s13 s14)
qed

lemma example_plain_sum_2:
  "py_sum [Finite (5913789260690883 / 562949953421312), Finite 20] = Finite (4293197082279281 / 140737488355328)"
proof -
  have s1: "to_double (0 + (5913789260690883 / 562949953421312)) = Finite (5913789260690883 / 562949953421312)"
  proof -
      have "round_half_even ((0 + (5913789260690883 / 562949953421312)) / 2 powi (3 - 52)) = 5913789260690883"
        by (rule round_half_even_nearest) simp
      from fl_eval [OF _ _ _ this] have "fl (0 + (5913789260690883 / 562949953421312)) = (5913789260690883 / 562949953421312)" by simp
      then show ?thesis by (rule to_double_eval) simp
  qed
  have s2: "fadd (Finite 0) (Finite (5913789260690883 / 562949953421312)) = Finite (5913789260690883 / 562949953421312)"
    by (simp only: fadd.simps s1)
  have s3: "to_double ((5913789260690883 / 562949953421312) + 20) = Finite (4293197082279281 / 140737488355328)"
  proof -
      have "round_half_even (((5913789260690883 / 562949953421312) + 20) / 2 powi (4 - 52)) = (if even (8586394164558561::int) then 8586394164558561 else 8586394164558561 + 1)"
        by (rule round_half_even_tie) simp
      then have "round_half_even (((5913789260690883 / 562949953421312) + 20) / 2 powi (4 - 52)) = 8586394164558562" by simp
      from fl_eval [OF _ _ _ this] have "fl ((5913789260690883 / 562949953421312) + 20) = (4293197082279281 / 140737488355328)" by simp
      then show ?thesis by (rule to_double_eval) simp
  qed
  have s4: "fadd (Finite (5913789260690883 / 562949953421312)) (Finite 20) = Finite (4293197082279281 / 140737488355328)"
    by (simp only: fadd.simps s3)
  show ?thesis
    by (simp only: py_sum_def foldl.simps s1 s2 s3 s4)
qed

lemma example_round_2:
  "py_round (Finite (4293197082279281 / 140737488355328)) 2 = Inr (Finite (8587801539442115 / 281474976710656))"
proof -
  have n: "round_half_even ((4293197082279281 / 140737488355328) * 100) = 3051"
    by (rule round_half_even_nearest) simp
  have r: "fl (of_int 3051 / 100) = (8587801539442115 / 281474976710656)"
  proof -
    have "round_half_even ((of_int 3051 / 100) / 2 powi (4 - 52)) = 8587801539442115"
      by (rule round_half_even_nearest) simp
    from fl_eval [OF _ _ _ this] have "fl (of_int 3051 / 100) = (8587801539442115 / 281474976710656)" by simp
    then show ?thesis .
  qed
  from n r show ?thesis by (rule py_round2_eval) simp
qed

lemma example_compensated_sum_3:
  "py_sum_compensated [Finite (5913789260690883 / 562949953421312), Finite 20, Finite 100] = Finite (1147934119863255 / 8796093022208)"
proof -
  have s1: "to_double (0 + (5913789260690883 / 562949953421312)) = Finite (5913789260690883 / 562949953421312)"
  proof -
      have "round_half_even ((0 + (5913789260690883 / 562949953421312)) / 2 powi (3 - 52)) = 5913789260690883"
        by (rule round_half_even_nearest) simp
      from fl_eval [OF _ _ _ this] have "fl (0 + (5913789260690883 / 562949953421312)) = (5913789260690883 / 562949953421312)" by simp
      then show ?thesis by (rule to_double_eval) simp
  qed
  have s2: "fadd (Finite 0) (Finite (5913789260690883 / 562949953421312)) = Finite (5913789260690883 / 562949953421312)"
    by (simp only: fadd.simps s1)
  have s3: "to_double ((5913789260690883 / 562949953421312) + 20) = Finite (4293197082279281 / 140737488355328)"
  proof -
      have "round_half_even (((5913789260690883 / 562949953421312) + 20) / 2 powi (4 - 52)) = (if even (8586394164558561::int) then 8586394164558561 else 8586394164558561 + 1)"
        by (rule round_half_even_tie) simp
      then have "round_half_even (((5913789260690883 / 562949953421312) + 20) / 2 powi (4 - 52)) = 8586394164558562" by simp
      from fl_eval [OF _ _ _ this] have "fl ((5913789260690883 / 562949953421312) + 20) = (4293197082279281 / 140737488355328)" by simp
      then show ?thesis by (rule to_double_eval) simp
  qed
  have s4: "fadd (Finite (5913789260690883 / 562949953421312)) (Finite 20) = Finite (4293197082279281 / 140737488355328)"
    by (simp only: fadd.simps s3)
  have s5: "fge (fabs (Finite (5913789260690883 / 562949953421312))) (fabs (Finite 20)) = False"
    by simp
  have s6: "to_double (20 - (4293197082279281 / 140737488355328)) = Finite (- 1478447315172721 / 140737488355328)"
  proof -
      have "round_half_even ((20 - (4293197082279281 / 140737488355328)) / 2 powi (3 - 52)) = (- 5913789260690884)"
        by (rule round_half_even_nearest) simp
      from fl_eval [OF _ _ _ this] have "fl (20 - (4293197082279281 / 140737488355328)) = (- 1478447315172721 / 140737488355328)" by simp
      then show ?thesis by (rule to_double_eval) simp
  qed
  have s7: "fsub (Finite 20) (Finite (4293197082279281 / 140737488355328)) = Finite (- 1478447315172721 / 140737488355328)"
    by (simp only: fsub_Finite s6)
  have s8: "to_double ((- 1478447315172721 / 140737488355328) + (5913789260690883 / 562949953421312)) = Finite (- 1 / 562949953421312)"
  proof -
      have "round_half_even (((- 1478447315172721 / 140737488355328) + (5913789260690883 / 562949953421312)) / 2 powi ((- 49) - 52)) = (- 4503599627370496)"
        by (rule round_half_even_nearest) simp
      from fl_eval [OF _ _ _ this] have "fl ((- 1478447315172721 / 140737488355328) + (5913789260690883 / 562949953421312)) = (- 1 / 562949953421312)" by simp
      then show ?thesis by (rule to_double_eval) simp
  qed
  have s9: "fadd (Finite (- 1478447315172721 / 140737488355328)) (Finite (5913789260690883 / 562949953421312)) = Finite (- 1 / 562949953421312)"
    by (simp only: fadd.simps s8)
  have s10: "to_double (0 + (- 1 / 562949953421312)) = Finite (- 1 / 562949953421312)"
  proof -
      have "round_half_even ((0 + (- 1 / 562949953421312)) / 2 powi ((- 49) - 52)) = (- 4503599627370496)"
        by (rule round_half_even_nearest) simp
      from fl_eval [OF _ _ _ this] have "fl (0 + (- 1 / 562949953421312)) = (- 1 / 562949953421312)" by simp
      then show ?thesis by (rule to_double_eval) simp
  qed
  have s11: "fadd (Finite 0) (Finite (- 1 / 562949953421312)) = Finite (- 1 / 562949953421312)"
    by (simp only: fadd.simps s10)
  have s12: "to_double ((4293197082279281 / 140737488355328) + 100) = Finite (1147934119863255 / 8796093022208)"
  proof -
      have "round_half_even (((4293197082279281 / 140737488355328) + 100) / 2 powi (7 - 52)) = 4591736479453020"
        by (rule round_half_even_nearest) simp
      from fl_eval [OF _ _ _ this] have "fl ((4293197082279281 / 140737488355328) + 100) = (1147934119863255 / 8796093022208)" by simp
      then show ?thesis by (rule to_double_eval) simp
  qed
  have s13: "fadd (Finite (4293197082279281 / 140737488355328)) (Finite 100) = Finite (1147934119863255 / 8796093022208)"
    by (simp only: fadd.simps s12)
  have s14: "fge (fabs (Finite (4293197082279281 / 140737488355328))) (fabs (Finite 100)) = False"
    by simp
  have s15: "to_double (100 - (1147934119863255 / 8796093022208)) = Finite (- 268324817642455 / 8796093022208)"
  proof -
      have "round_half_even ((100 - (1147934119863255 / 8796093022208)) / 2 powi (4 - 52)) = (- 8586394164558560)"
        by (rule round_half_even_nearest) simp
      from fl_eval [OF _ _ _ this] have "fl (100 - (1147934119863255 / 8796093022208)) = (- 268324817642455 / 8796093022208)" by simp
      then show ?thesis by (rule to_double_eval) simp
  qed
  have s16: "fsub (Finite 100) (Finite (1147934119863255 / 8796093022208)) = Finite (- 268324817642455 / 8796093022208)"
    by (simp only: fsub_Finite s15)
  have s17: "to_double ((- 268324817642455 / 8796093022208) + (4293197082279281 / 140737488355328)) = Finite (1 / 140737488355328)"
  proof -
      have "round_half_even (((- 268324817642455 / 8796093022208) + (4293197082279281 / 140737488355328)) / 2 powi ((- 47) - 52)) = 4503599627370496"
        by (rule round_half_even_nearest) simp
      from fl_eval [OF _ _ _ this] have "fl ((- 268324817642455 / 8796093022208) + (4293197082279281 / 140737488355328)) = (1 / 140737488355328)" by simp
      then show ?thesis by (rule to_double_eval) simp
  qed
  have s18: "fadd (Finite (- 268324817642455 / 8796093022208)) (Finite (4293197082279281 / 140737488355328)) = Finite (1 / 140737488355328)"
    by (simp only: fadd.simps s17)
  have s19: "to_double ((- 1 / 562949953421312) + (1 / 140737488355328)) = Finite (3 / 562949953421312)"
  proof -
      have "round_half_even (((- 1 / 562949953421312) + (1 / 140737488355328)) / 2 powi ((- 48) - 52)) = 6755399441055744"
        by (rule round_half_even_nearest) simp
      from fl_eval [OF _ _ _ this] have "fl ((- 1 / 562949953421312) + (1 / 140737488355328)) = (3 / 562949953421312)" by simp
      then show ?thesis by (rule to_double_eval) simp
  qed
  have s20: "fadd (Finite (- 1 / 562949953421312)) (Finite (1 / 140737488355328)) = Finite (3 / 562949953421312)"
    by (simp only: fadd.simps s19)
  have s21: "(Finite (3 / 562949953421312) \<noteq> Finite 0 \<and> is_finite (Finite (3 / 562949953421312))) = True"
    by simp
  have s22: "to_double ((1147934119863255 / 8796093022208) + (3 / 562949953421312)) = Finite (1147934119863255 / 8796093022208)"
  proof -
      have "round_half_even (((1147934119863255 / 8796093022208) + (3 / 562949953421312)) / 2 powi (7 - 52)) = 4591736479453020"
        by (rule round_half_even_nearest) simp
      from fl_eval [OF _ _ _ this] have "fl ((1147934119863255 / 8796093022208) + (3 / 562949953421312)) = (1147934119863255 / 8796093022208)" by simp
      then show ?thesis by (rule to_double_eval) simp
  qed
  have s23: "fadd (Finite (1147934119863255 / 8796093022208)) (Finite (3 / 562949953421312)) = Finite (1147934119863255 / 8796093022208)"
    by (simp only: fadd.simps s22)
  show ?thesis
    by (simp only: py_sum_compensated_def list.case neumaier.simps Let_def if_True if_False
        s1 s2 s3 s4 s5 s6 s7 s8 s9 s10 s11 s12 s13 s14 s15 s16 s17 s18 s19 s20 s21 s22 s23)
qed

lemma example_plain_sum_3:
  "py_sum [Finite (5913789260690883 / 562949953421312), Finite 20, Finite 100] = Finite (1147934119863255 / 8796093022208)"
proof -
  have s1: "to_double (0 + (5913789260690883 / 562949953421312)) = Finite (5913789260690883 / 562949953421312)"
  proof -
      have "round_half_even ((0 + (5913789260690883 / 562949953421312)) / 2 powi (3 - 52)) = 5913789260690883"
        by (rule round_half_even_nearest) simp
      from fl_eval [OF _ _ _ this] have "fl (0 + (5913789260690883 / 562949953421312)) = (5913789260690883 / 562949953421312)" by simp
      then show ?thesis by (rule to_double_eval) simp
  qed
  have s2: "fadd (Finite 0) (Finite (5913789260690883 / 562949953421312)) = Finite (5913789260690883 / 562949953421312)"
    by (simp only: fadd.simps s1)
  have s3: "to_double ((5913789260690883 / 562949953421312) + 20) = Finite (4293197082279281 / 140737488355328)"
  proof -
      have "round_half_even (((5913789260690883 / 562949953421312) + 20) / 2 powi (4 - 52)) = (if even (8586394164558561::int) then 8586394164558561 else 8586394164558561 + 1)"
        by (rule round_half_even_tie) simp
      then have "round_half_even (((5913789260690883 / 562949953421312) + 20) / 2 powi (4 - 52)) = 8586394164558562" by simp
      from fl_eval [OF _ _ _ this] have "fl ((5913789260690883 / 562949953421312) + 20) = (4293197082279281 / 140737488355328)" by simp
      then show ?thesis by (rule to_double_eval) simp
  qed
  have s4: "fadd (Finite (5913789260690883 / 562949953421312)) (Finite 20) = Finite (4293197082279281 / 140737488355328)"
    by (simp only: fadd.simps s3)
  have s5: "to_double ((4293197082279281 / 140737488355328) + 100) = Finite (1147934119863255 / 8796093022208)"
  proof -
      have "round_half_even (((4293197082279281 / 140737488355328) + 100) / 2 powi (7 - 52)) = 4591736479453020"
        by (rule round_half_even_nearest) simp
      from fl_eval [OF _ _ _ this] have "fl ((4293197082279281 / 140737488355328) + 100) = (1147934119863255 / 8796093022208)" by simp
      then show ?thesis by (rule to_double_eval) simp
  qed
  have s6: "fadd (Finite (4293197082279281 / 140737488355328)) (Finite 100) = Finite (1147934119863255 / 8796093022208)"
    by (simp only: fadd.simps s5)
  show ?thesis
    by (simp only: py_sum_def foldl.simps s1 s2 s3 s4 s5 s6)
qed

lemma example_round_3:
  "py_round (Finite (1147934119863255 / 8796093022208)) 2 = Inr (Finite (261 / 2))"
proof -
  have n: "round_half_even ((1147934119863255 / 8796093022208) * 100) = 13050"
    by (rule round_half_even_nearest) simp
  have r: "fl (of_int 13050 / 100) = (261 / 2)"
  proof -
    have "round_half_even ((of_int 13050 / 100) / 2 powi (7 - 52)) = 4591560557592576"
      by (rule round_half_even_nearest) simp
    from fl_eval [OF _ _ _ this] have "fl (of_int 13050 / 100) = (261 / 2)" by simp
    then show ?thesis .
  qed
  from n r show ?thesis by (rule py_round2_eval) simp
qed

lemma example_literal_10505:
  "to_double (10505 / 1000) = Finite (5913789260690883 / 562949953421312)"
proof -
  have s1: "to_double (10505 / 1000) = Finite (5913789260690883 / 562949953421312)"
  proof -
      have "round_half_even ((10505 / 1000) / 2 powi (3 - 52)) = 5913789260690883"
        by (rule round_half_even_nearest) simp
      from fl_eval [OF _ _ _ this] have "fl (10505 / 1000) = (5913789260690883 / 562949953421312)" by simp
      then show ?thesis by (rule to_double_eval) simp
  qed
  show ?thesis by (rule s1)
qed

lemma example_literal_20:
  "to_double (20) = Finite 20"
proof -
  have s1: "to_double (20) = Finite 20"
  proof -
      have "round_half_even ((20) / 2 powi (4 - 52)) = 5629499534213120"
        by (rule round_half_even_nearest) simp
      from fl_eval [OF _ _ _ this] have "fl (20) = 20" by simp
      then show ?thesis by (rule to_double_eval) simp
  qed
  show ?thesis by (rule s1)
qed

lemma example_literal_minus_5:
  "to_double (- 5) = Finite (- 5)"
proof -
  have s1: "to_double (- 5) = Finite (- 5)"
  proof -
      have "round_half_even ((- 5) / 2 powi (2 - 52)) = (- 5629499534213120)"
        by (rule round_half_even_nearest) simp
      from fl_eval [OF _ _ _ this] have "fl (- 5) = (- 5)" by simp
      then show ?thesis by (rule to_double_eval) simp
  qed
  show ?thesis by (rule s1)
qed

lemma example_literal_100:
  "to_double (100) = Finite 100"
proof -
  have s1: "to_double (100) = Finite 100"
  proof -
      have "round_half_even ((100) / 2 powi (6 - 52)) = 7036874417766400"
        by (rule round_half_even_nearest) simp
      from fl_eval [OF _ _ _ this] have "fl (100) = 100" by simp
      then show ?thesis by (rule to_double_eval) simp
  qed
  show ?thesis by (rule s1)
qed

lemma example_literal_1051:
  "to_double (1051 / 100) = Finite (5916604010457989 / 562949953421312)"
proof -
  have s1: "to_double (1051 / 100) = Finite (5916604010457989 / 562949953421312)"
  proof -
      have "round_half_even ((1051 / 100) / 2 powi (3 - 52)) = 5916604010457989"
        by (rule round_half_even_nearest) simp
      from fl_eval [OF _ _ _ this] have "fl (1051 / 100) = (5916604010457989 / 562949953421312)" by simp
      then show ?thesis by (rule to_double_eval) simp
  qed
  show ?thesis by (rule s1)
qed

lemma example_literal_3051:
  "to_double (3051 / 100) = Finite (8587801539442115 / 281474976710656)"
proof -
  have s1: "to_double (3051 / 100) = Finite (8587801539442115 / 281474976710656)"
  proof -
      have "round_half_even ((3051 / 100) / 2 powi (4 - 52)) = 8587801539442115"
        by (rule round_half_even_nearest) simp
      from fl_eval [OF _ _ _ this] have "fl (3051 / 100) = (8587801539442115 / 281474976710656)" by simp
      then show ?thesis by (rule to_double_eval) simp
  qed
  show ?thesis by (rule s1)
qed

lemma example_literal_1305:
  "to_double (1305 / 10) = Finite (261 / 2)"
proof -
  have s1: "to_double (1305 / 10) = Finite (261 / 2)"
  proof -
      have "round_half_even ((1305 / 10) / 2 powi (7 - 52)) = 4591560557592576"
        by (rule round_half_even_nearest) simp
      from fl_eval [OF _ _ _ this] have "fl (1305 / 10) = (261 / 2)" by simp
      then show ?thesis by (rule to_double_eval) simp
  qed
  show ?thesis by (rule s1)
qed

lemma example_literal_13051:
  "to_double (13051 / 100) = Finite (573989050164183 / 4398046511104)"
proof -
  have s1: "to_double (13051 / 100) = Finite (573989050164183 / 4398046511104)"
  proof -
      have "round_half_even ((13051 / 100) / 2 powi (7 - 52)) = 4591912401313464"
        by (rule round_half_even_nearest) simp
      from fl_eval [OF _ _ _ this] have "fl (13051 / 100) = (573989050164183 / 4398046511104)" by simp
      then show ?thesis by (rule to_double_eval) simp
  qed
  show ?thesis by (rule s1)
qed

lemmas example_literals =
  example_literal_10505 example_literal_20 example_literal_minus_5 example_literal_100

lemma example_dates:
  "ymd2ord 2024 6 15 = 739052" "ymd2ord 2024 6 10 = 739047"
  "ymd2ord 2024 6 14 = 739051" "ymd2ord 2024 5 20 = 739026"
  by (simp_all add: ymd2ord_def days_before_year_def days_before_month_def is_leap_def)

lemma example_value:
  "spending_summary (ymd2ord 2024 6 15)
     [\<lparr>amount = to_double (10505 / 1000), date = ymd2ord 2024 6 15\<rparr>,
      \<lparr>amount = to_double 20, date = ymd2ord 2024 6 10\<rparr>,
      \<lparr>amount = to_double (- 5), date = ymd2ord 2024 6 14\<rparr>,
      \<lparr>amount = to_double 100, date = ymd2ord 2024 5 20\<rparr>]
   = Inr \<lparr>daily = Finite (5916604010457989 / 562949953421312),
          weekly = Finite (8587801539442115 / 281474976710656),
          monthly = Finite (261 / 2)\<rparr>"
  unfolding example_literals example_dates
  by (simp add: spending_summary_def spending_transactions_def daily_terms_def weekly_terms_def
      date_sub_days_def MAXORDINAL_def bindE_def Let_def example_plain_sum_1 example_plain_sum_2
      example_plain_sum_3 example_round_1 example_round_2 example_round_3)

lemma example_value_compensated:
  "spending_summary_compensated (ymd2ord 2024 6 15)
     [\<lparr>amount = to_double (10505 / 1000), date = ymd2ord 2024 6 15\<rparr>,
      \<lparr>amount = to_double 20, date = ymd2ord 2024 6 10\<rparr>,
      \<lparr>amount = to_double (- 5), date = ymd2ord 2024 6 14\<rparr>,
      \<lparr>amount = to_double 100, date = ymd2ord 2024 5 20\<rparr>]
   = Inr \<lparr>daily = Finite (5916604010457989 / 562949953421312),
          weekly = Finite (8587801539442115 / 281474976710656),
          monthly = Finite (261 / 2)\<rparr>"
  unfolding example_literals example_dates
  by (simp add: spending_summary_compensated_def spending_transactions_def daily_terms_def
      weekly_terms_def date_sub_days_def MAXORDINAL_def bindE_def Let_def
      example_compensated_sum_1 example_compensated_sum_2 example_compensated_sum_3
      example_round_1 example_round_2 example_round_3)

text \<open>
  C2: for the example scenario the aggregation returns \<open>daily = 10.51\<close>,
  \<open>weekly = 30.51\<close> and \<open>monthly = 130.5\<close>, with either summation. The double nearest to
  \<open>10.505\<close> lies above it and so does the sum with \<open>20.0\<close>, but the double sum
  \<open>10.505 + 20.0 + 100.0\<close> lies below \<open>130.505\<close> and rounds down.
\<close>

theorem example_scenario:
  "spending_summary (ymd2ord 2024 6 15)
     [\<lparr>amount = to_double (10505 / 1000), date = ymd2ord 2024 6 15\<rparr>,
      \<lparr>amount = to_double 20, date = ymd2ord 2024 6 10\<rparr>,
      \<lparr>amount = to_double (- 5), date = ymd2ord 2024 6 14\<rparr>,
      \<lparr>amount = to_double 100, date = ymd2ord 2024 5 20\<rparr>]
   = Inr \<lparr>daily = to_double (1051 / 100), weekly = to_double (3051 / 100), monthly = to_double (1305 / 10)\<rparr>
   \<and> spending_summary_compensated (ymd2ord 2024 6 15)
     [\<lparr>amount = to_double (10505 / 1000), date = ymd2ord 2024 6 15\<rparr>,
      \<lparr>amount = to_double 20, date = ymd2ord 2024 6 10\<rparr>,
      \<lparr>amount = to_double (- 5), date = ymd2ord 2024 6 14\<rparr>,
      \<lparr>amount = to_double 100, date = ymd2ord 2024 5 20\<rparr>]
   = Inr \<lparr>daily = to_double (1051 / 100), weekly = to_double (3051 / 100), monthly = to_double (1305 / 10)\<rparr>"
  by (simp only: example_value example_value_compensated example_literal_1051 example_literal_3051
      example_literal_1305 simp_thms)

text \<open>The outputs the claim states, with \<open>monthly = 130.51\<close>, are not what is returned.\<close>

theorem example_scenario_counterexample:
  "spending_summary (ymd2ord 2024 6 15)
     [\<lparr>amount = to_double (10505 / 1000), date = ymd2ord 2024 6 15\<rparr>,
      \<lparr>amount = to_double 20, date = ymd2ord 2024 6 10\<rparr>,
      \<lparr>amount = to_double (- 5), date = ymd2ord 2024 6 14\<rparr>,
      \<lparr>amount = to_double 100, date = ymd2ord 2024 5 20\<rparr>]
   \<noteq> Inr \<lparr>daily = to_double (1051 / 100), weekly = to_double (3051 / 100), monthly = to_double (13051 / 100)\<rparr>
   \<and> spending_summary_compensated (ymd2ord 2024 6 15)
     [\<lparr>amount = to_double (10505 / 1000), date = ymd2ord 2024 6 15\<rparr>,
      \<lparr>amount = to_double 20, date = ymd2ord 2024 6 10\<rparr>,
      \<lparr>amount = to_double (- 5), date = ymd2ord 2024 6 14\<rparr>,
      \<lparr>amount = to_double 100, date = ymd2ord 2024 5 20\<rparr>]
   \<noteq> Inr \<lparr>daily = to_double (1051 / 100), weekly = to_double (3051 / 100), monthly = to_double (13051 / 100)\<rparr>"
  unfolding example_value example_value_compensated example_literal_1051 example_literal_3051
    example_literal_13051
  by simp

text \<open>
  C3: removing every transaction whose amount is \<open><= 0\<close> from the input leaves the result
  of the aggregation unchanged, for every transaction list and reference date.
\<close>

theorem nonpositive_amounts_ignored:
  "spending_summary today (filter (\<lambda>t. \<not> fle0 (amount t)) transactions)
     = spending_summary today transactions"
proof -
  have "fgt0 x \<Longrightarrow> \<not> fle0 x" for x by (cases x) simp_all
  then have "spending_transactions (filter (\<lambda>t. \<not> fle0 (amount t)) transactions)
               = spending_transactions transactions"
    unfolding spending_transactions_def by (induction transactions) simp_all
  then show ?thesis unfolding spending_summary_def by simp
qed

text \<open>
  C4: a positive-amount transaction dated exactly 7 days before the reference date is one
  of the terms of the weekly total, and a transaction dated exactly 8 days before it is
  not.
\<close>

theorem weekly_boundary_inclusive:
  assumes "7 < today" "today \<le> MAXORDINAL"
    and "t7 \<in> set transactions" "fgt0 (amount t7)" "date t7 = today - 7"
    and "date t8 = today - 8"
  shows "\<exists>s. spending_summary today transactions = Inr s
           \<and> py_round (py_sum (map amount (weekly_terms (today - 7) (spending_transactions transactions)))) 2
               = Inr (weekly s)
           \<and> t7 \<in> set (weekly_terms (today - 7) (spending_transactions transactions))
           \<and> t8 \<notin> set (weekly_terms (today - 7) (spending_transactions transactions))"
proof -
  have "py_round (py_sum (map amount (weekly_terms (today - 7) (spending_transactions transactions)))) 2
          = Inr (round2f (py_sum (map amount (weekly_terms (today - 7) (spending_transactions transactions)))))"
    by (intro py_round2_acc py_sum_filter_le(2) weekly_positive)
  moreover have "t7 \<in> set (weekly_terms (today - 7) (spending_transactions transactions))"
    using assms(3,4,5) by (simp add: weekly_terms_def spending_transactions_def)
  moreover have "t8 \<notin> set (weekly_terms (today - 7) (spending_transactions transactions))"
    using assms(6) by (simp add: weekly_terms_def)
  ultimately show ?thesis by (simp add: spending_summary_eq [OF assms(1,2)])
qed

theorem weekly_boundary_inclusive_witness:
  "\<exists>s. spending_summary 739052 [\<lparr>amount = Finite 3, date = 739045\<rparr>, \<lparr>amount = Finite 4, date = 739044\<rparr>] = Inr s
        \<and> py_round (py_sum (map amount (weekly_terms (739052 - 7)
              (spending_transactions [\<lparr>amount = Finite 3, date = 739045\<rparr>, \<lparr>amount = Finite 4, date = 739044\<rparr>])))) 2
            = Inr (weekly s)
        \<and> \<lparr>amount = Finite 3, date = 739045\<rparr> \<in> set (weekly_terms (739052 - 7)
              (spending_transactions [\<lparr>amount = Finite 3, date = 739045\<rparr>, \<lparr>amount = Finite 4, date = 739044\<rparr>]))
        \<and> \<lparr>amount = Finite 4, date = 739044\<rparr> \<notin> set (weekly_terms (739052 - 7)
              (spending_transactions [\<lparr>amount = Finite 3, date = 739045\<rparr>, \<lparr>amount = Finite 4, date = 739044\<rparr>]))"
  by (rule weekly_boundary_inclusive) (simp_all add: MAXORDINAL_def)

text \<open>
  C5: a positive-amount transaction dated exactly 1 day before the reference date is one of
  the terms of the daily total; one dated exactly 2 days before it is not, while it is a
  term of the weekly and of the monthly total.
\<close>

theorem daily_boundary_inclusive:
  assumes "7 < today" "today \<le> MAXORDINAL"
    and "t1 \<in> set transactions" "fgt0 (amount t1)" "date t1 = today - 1"
    and "t2 \<in> set transactions" "fgt0 (amount t2)" "date t2 = today - 2"
  shows "\<exists>s. spending_summary today transactions = Inr s
           \<and> py_round (py_sum (map amount (daily_terms (today - 1) (spending_transactions transactions)))) 2
               = Inr (daily s)
           \<and> py_round (py_sum (map amount (weekly_terms (today - 7) (spending_transactions transactions)))) 2
               = Inr (weekly s)
           \<and> py_round (py_sum (map amount (spending_transactions transactions))) 2 = Inr (monthly s)
           \<and> t1 \<in> set (daily_terms (today - 1) (spending_transactions transactions))
           \<and> t2 \<notin> set (daily_terms (today - 1) (spending_transactions transactions))
           \<and> t2 \<in> set (weekly_terms (today - 7) (spending_transactions transactions))
           \<and> t2 \<in> set (spending_transactions transactions)"
proof -
  have "py_round (py_sum (map amount (daily_terms (today - 1) (spending_transactions transactions)))) 2
          = Inr (round2f (py_sum (map amount (daily_terms (today - 1) (spending_transactions transactions)))))"
    by (intro py_round2_acc py_sum_filter_le(2) daily_positive)
  moreover have "py_round (py_sum (map amount (weekly_terms (today - 7) (spending_transactions transactions)))) 2
          = Inr (round2f (py_sum (map amount (weekly_terms (today - 7) (spending_transactions transactions)))))"
    by (intro py_round2_acc py_sum_filter_le(2) weekly_positive)
  moreover have "py_round (py_sum (map amount (spending_transactions transactions))) 2
          = Inr (round2f (py_sum (map amount (spending_transactions transactions))))"
    by (intro py_round2_acc py_sum_filter_le(2) spending_positive)
  moreover have "t1 \<in> set (daily_terms (today - 1) (spending_transactions transactions))"
    using assms(3,4,5) by (simp add: daily_terms_def spending_transactions_def)
  moreover have "t2 \<notin> set (daily_terms (today - 1) (spending_transactions transactions))"
    using assms(8) by (simp add: daily_terms_def)
  moreover have "t2 \<in> set (weekly_terms (today - 7) (spending_transactions transactions))"
    using assms(6,7,8) by (simp add: weekly_terms_def spending_transactions_def)
  moreover have "t2 \<in> set (spending_transactions transactions)"
    using assms(6,7) by (simp add: spending_transactions_def)
  ultimately show ?thesis by (simp add: spending_summary_eq [OF assms(1,2)])
qed

theorem daily_boundary_inclusive_witness:
  "\<exists>s. spending_summary 739052 [\<lparr>amount = Finite 3, date = 739051\<rparr>, \<lparr>amount = Finite 4, date = 739050\<rparr>] = Inr s
        \<and> py_round (py_sum (map amount (daily_terms (739052 - 1)
              (spending_transactions [\<lparr>amount = Finite 3, date = 739051\<rparr>, \<lparr>amount = Finite 4, date = 739050\<rparr>])))) 2
            = Inr (daily s)
        \<and> py_round (py_sum (map amount (weekly_terms (739052 - 7)
              (spending_transactions [\<lparr>amount = Finite 3, date = 739051\<rparr>, \<lparr>amount = Finite 4, date = 739050\<rparr>])))) 2
            = Inr (weekly s)
        \<and> py_round (py_sum (map amount
              (spending_transactions [\<lparr>amount = Finite 3, date = 739051\<rparr>, \<lparr>amount = Finite 4, date = 739050\<rparr>]))) 2
            = Inr (monthly s)
        \<and> \<lparr>amount = Finite 3, date = 739051\<rparr> \<in> set (daily_terms (739052 - 1)
              (spending_transactions [\<lparr>amount = Finite 3, date = 739051\<rparr>, \<lparr>amount = Finite 4, date = 739050\<rparr>]))
        \<and> \<lparr>amount = Finite 4, date = 739050\<rparr> \<notin> set (daily_terms (739052 - 1)
              (spending_transactions [\<lparr>amount = Finite 3, date = 739051\<rparr>, \<lparr>amount = Finite 4, date = 739050\<rparr>]))
        \<and> \<lparr>amount = Finite 4, date = 739050\<rparr> \<in> set (weekly_terms (739052 - 7)
              (spending_transactions [\<lparr>amount = Finite 3, date = 739051\<rparr>, \<lparr>amount = Finite 4, date = 739050\<rparr>]))
        \<and> \<lparr>amount = Finite 4, date = 739050\<rparr> \<in> set
              (spending_transactions [\<lparr>amount = Finite 3, date = 739051\<rparr>, \<lparr>amount = Finite 4, date = 739050\<rparr>])"
  by (rule daily_boundary_inclusive) (simp_all add: MAXORDINAL_def)

text \<open>
  C6: for the empty transaction list the aggregation returns
  \<open>daily = weekly = monthly = 0.0\<close>.
\<close>

theorem empty_list_all_zero:
  assumes "7 < today" "today \<le> MAXORDINAL"
  shows "spending_summary today [] = Inr \<lparr>daily = Finite 0, weekly = Finite 0, monthly = Finite 0\<rparr>"
proof -
  have "round2 0 = 0" by (simp add: round2_def round_half_even_def fl_def)
  then show ?thesis
    by (simp add: spending_summary_eq [OF assms] spending_transactions_def daily_terms_def
        weekly_terms_def py_sum_def)
qed

theorem empty_list_all_zero_witness:
  "spending_summary 739052 [] = Inr \<lparr>daily = Finite 0, weekly = Finite 0, monthly = Finite 0\<rparr>"
  by (rule empty_list_all_zero) (simp_all add: MAXORDINAL_def)

text \<open>
  C7: each of the three outputs is the unrounded sum of its terms, accumulated in double
  precision, rounded once to two decimal places.
\<close>

theorem outputs_rounded_once_to_cents:
  assumes "7 < today" "today \<le> MAXORDINAL"
  shows "\<exists>s. spending_summary today transactions = Inr s
           \<and> rounded_to_cents
               (foldl fadd (Finite 0) (map amount (daily_terms (today - 1) (spending_transactions transactions))))
               (daily s)
           \<and> rounded_to_cents
               (foldl fadd (Finite 0) (map amount (weekly_terms (today - 7) (spending_transactions transactions))))
               (weekly s)
           \<and> rounded_to_cents
               (foldl fadd (Finite 0) (map amount (spending_transactions transactions)))
               (monthly s)"
proof -
  have "rounded_to_cents (py_sum (map amount (daily_terms (today - 1) (spending_transactions transactions))))
          (round2f (py_sum (map amount (daily_terms (today - 1) (spending_transactions transactions)))))"
    by (intro round2f_cents py_sum_filter_le(2) daily_positive)
  moreover have "rounded_to_cents (py_sum (map amount (weekly_terms (today - 7) (spending_transactions transactions))))
          (round2f (py_sum (map amount (weekly_terms (today - 7) (spending_transactions transactions)))))"
    by (intro round2f_cents py_sum_filter_le(2) weekly_positive)
  moreover have "rounded_to_cents (py_sum (map amount (spending_transactions transactions)))
          (round2f (py_sum (map amount (spending_transactions transactions))))"
    by (intro round2f_cents py_sum_filter_le(2) spending_positive)
  ultimately show ?thesis by (simp add: spending_summary_eq [OF assms] py_sum_def)
qed

theorem outputs_rounded_once_to_cents_witness:
  "\<exists>s. spending_summary 739052 [\<lparr>amount = Finite (1 / 250), date = 739052\<rparr>, \<lparr>amount = Finite (1 / 250), date = 739052\<rparr>] = Inr s
        \<and> rounded_to_cents
            (foldl fadd (Finite 0) (map amount (daily_terms (739052 - 1)
               (spending_transactions [\<lparr>amount = Finite (1 / 250), date = 739052\<rparr>, \<lparr>amount = Finite (1 / 250), date = 739052\<rparr>]))))
            (daily s)
        \<and> rounded_to_cents
            (foldl fadd (Finite 0) (map amount (weekly_terms (739052 - 7)
               (spending_transactions [\<lparr>amount = Finite (1 / 250), date = 739052\<rparr>, \<lparr>amount = Finite (1 / 250), date = 739052\<rparr>]))))
            (weekly s)
        \<and> rounded_to_cents
            (foldl fadd (Finite 0) (map amount
               (spending_transactions [\<lparr>amount = Finite (1 / 250), date = 739052\<rparr>, \<lparr>amount = Finite (1 / 250), date = 739052\<rparr>])))
            (monthly s)"
  by (rule outputs_rounded_once_to_cents) (simp_all add: MAXORDINAL_def)

text \<open>
  C8: the monthly total is the rounded sum of all positive amounts of the list, whatever
  their dates: it is determined by the list of amounts alone.
\<close>

theorem monthly_sums_all_positive_amounts:
  assumes "7 < today" "today \<le> MAXORDINAL"
  shows "\<exists>s. spending_summary today transactions = Inr s
           \<and> py_round (py_sum (filter fgt0 (map amount transactions))) 2 = Inr (monthly s)"
proof -
  have eq: "filter fgt0 (map amount transactions) = map amount (spending_transactions transactions)"
    by (simp add: spending_transactions_def filter_map comp_def)
  have "py_round (py_sum (map amount (spending_transactions transactions))) 2
          = Inr (round2f (py_sum (map amount (spending_transactions transactions))))"
    by (intro py_round2_acc py_sum_filter_le(2) spending_positive)
  then show ?thesis by (simp add: spending_summary_eq [OF assms] eq)
qed

theorem monthly_sums_all_positive_amounts_witness:
  "\<exists>s. spending_summary 739052 [\<lparr>amount = Finite 3, date = 739052\<rparr>, \<lparr>amount = Finite 4, date = 700000\<rparr>] = Inr s
        \<and> py_round (py_sum (filter fgt0 (map amount
              [\<lparr>amount = Finite 3, date = 739052\<rparr>, \<lparr>amount = Finite 4, date = 700000\<rparr>]))) 2
            = Inr (monthly s)"
  by (rule monthly_sums_all_positive_amounts) (simp_all add: MAXORDINAL_def)

subsection \<open>Error handling of the three handlers\<close>





text \<open>
  C10: a positive-amount transaction dated strictly after the reference date is a term of
  all three totals.
\<close>

theorem future_transactions_counted_everywhere:
  assumes "7 < today" "today \<le> MAXORDINAL"
    and "t \<in> set transactions" "fgt0 (amount t)" "today < date t"
  shows "\<exists>s. spending_summary today transactions = Inr s
           \<and> py_round (py_sum (map amount (daily_terms (today - 1) (spending_transactions transactions)))) 2
               = Inr (daily s)
           \<and> py_round (py_sum (map amount (weekly_terms (today - 7) (spending_transactions transactions)))) 2
               = Inr (weekly s)
           \<and> py_round (py_sum (map amount (spending_transactions transactions))) 2 = Inr (monthly s)
           \<and> t \<in> set (daily_terms (today - 1) (spending_transactions transactions))
           \<and> t \<in> set (weekly_terms (today - 7) (spending_transactions transactions))
           \<and> t \<in> set (spending_transactions transactions)"
proof -
  have "py_round (py_sum (map amount (daily_terms (today - 1) (spending_transactions transactions)))) 2
          = Inr (round2f (py_sum (map amount (daily_terms (today - 1) (spending_transactions transactions)))))"
    by (intro py_round2_acc py_sum_filter_le(2) daily_positive)
  moreover have "py_round (py_sum (map amount (weekly_terms (today - 7) (spending_transactions transactions)))) 2
          = Inr (round2f (py_sum (map amount (weekly_terms (today - 7) (spending_transactions transactions)))))"
    by (intro py_round2_acc py_sum_filter_le(2) weekly_positive)
  moreover have "py_round (py_sum (map amount (spending_transactions transactions))) 2
          = Inr (round2f (py_sum (map amount (spending_transactions transactions))))"
    by (intro py_round2_acc py_sum_filter_le(2) spending_positive)
  moreover have "t \<in> set (daily_terms (today - 1) (spending_transactions transactions))"
    and "t \<in> set (weekly_terms (today - 7) (spending_transactions transactions))"
    and "t \<in> set (spending_transactions transactions)"
    using assms(3,4,5) by (simp_all add: daily_terms_def weekly_terms_def spending_transactions_def)
  ultimately show ?thesis by (simp add: spending_summary_eq [OF assms(1,2)])
qed

theorem future_transactions_counted_everywhere_witness:
  "\<exists>s. spending_summary 739052 [\<lparr>amount = Finite 3, date = 739060\<rparr>] = Inr s
        \<and> py_round (py_sum (map amount (daily_terms (739052 - 1)
              (spending_transactions [\<lparr>amount = Finite 3, date = 739060\<rparr>])))) 2 = Inr (daily s)
        \<and> py_round (py_sum (map amount (weekly_terms (739052 - 7)
              (spending_transactions [\<lparr>amount = Finite 3, date = 739060\<rparr>])))) 2 = Inr (weekly s)
        \<and> py_round (py_sum (map amount (spending_transactions [\<lparr>amount = Finite 3, date = 739060\<rparr>]))) 2
            = Inr (monthly s)
        \<and> \<lparr>amount = Finite 3, date = 739060\<rparr> \<in> set (daily_terms (739052 - 1)
              (spending_transactions [\<lparr>amount = Finite 3, date = 739060\<rparr>]))
        \<and> \<lparr>amount = Finite 3, date = 739060\<rparr> \<in> set (weekly_terms (739052 - 7)
              (spending_transactions [\<lparr>amount = Finite 3, date = 739060\<rparr>]))
        \<and> \<lparr>amount = Finite 3, date = 739060\<rparr> \<in> set (spending_transactions [\<lparr>amount = Finite 3, date = 739060\<rparr>])"
  by (rule future_transactions_counted_everywhere) (simp_all add: MAXORDINAL_def)

end
